theory Spec2Isabelle
  imports Main "HOL-Library.Word"
begin

text \<open>
  The start-up module of ctags (main.c): the environment sanitizer, the entry classifier
  and the directory walker, the loops over the sources of file names, and the batch and
  interactive main loops.
\<close>

section \<open>C strings\<close>

text \<open>
  A C string is modelled by the list of its characters before the terminating NUL; a
  pointer into a string literal is the suffix that starts at the pointed-to character.
  \<open>strncmp\<close> compares at most \<open>n\<close> characters and stops at the first difference or
  at the end of both strings. Of its result C fixes the sign only: it is \<open>- 1\<close>, \<open>0\<close>
  or \<open>1\<close> here, the characters compared as unsigned.
\<close>

definition strlen :: "string \<Rightarrow> nat" where
  "strlen s = length s"

fun strncmp :: "string \<Rightarrow> string \<Rightarrow> nat \<Rightarrow> int" where
  "strncmp a b 0 = 0"
| "strncmp [] [] (Suc n) = 0"
| "strncmp [] (y # ys) (Suc n) = - 1"
| "strncmp (x # xs) [] (Suc n) = 1"
| "strncmp (x # xs) (y # ys) (Suc n) =
     (if x = y then strncmp xs ys n
      else if (of_char x :: nat) < of_char y then - 1 else 1)"

definition strcmp :: "string \<Rightarrow> string \<Rightarrow> int" where
  "strcmp a b = strncmp a b (Suc (max (length a) (length b)))"

text \<open>\<open>strchr s c\<close>: the offset of the first \<open>c\<close> in \<open>s\<close>, \<open>None\<close> for the NULL result.\<close>

fun strchr :: "string \<Rightarrow> char \<Rightarrow> nat option" where
  "strchr [] c = None"
| "strchr (x # xs) c = (if x = c then Some 0 else map_option Suc (strchr xs c))"

section \<open>Environment sanitizer\<close>

text \<open>
  \<open>isSafeVar\<close> declares the array \<open>safe_vars\<close> of two names and a NULL terminator, and
  then runs \<open>for (sv = safe_vars[0]; sv != NULL; sv++)\<close> with \<open>sv\<close> of type
  \<open>const char *\<close>: the loop variable starts at the first character of the first
  name and \<open>sv++\<close> moves it one character forward inside that literal. \<open>sv\<close> never
  becomes NULL; the walk is over the suffixes of \<open>safe_vars[0]\<close>. Reading past the
  terminating NUL of the literal would be undefined (\<open>None\<close>).
\<close>

definition safe_vars :: "string list" where
  "safe_vars = [''BASH_FUNC_module()='', ''BASH_FUNC_scl()='']"

fun isSafeVar_loop :: "string \<Rightarrow> string \<Rightarrow> bool option" where
  "isSafeVar_loop var [] =
     (if strncmp var [] (strlen []) = 0 then Some True else None)"
| "isSafeVar_loop var (c # sv) =
     (if strncmp var (c # sv) (strlen (c # sv)) = 0 then Some True
      else isSafeVar_loop var sv)"

definition isSafeVar :: "string \<Rightarrow> bool option" where
  "isSafeVar var = isSafeVar_loop var (safe_vars ! 0)"

text \<open>
  The messages of \<open>error\<close> and \<open>verbose\<close>, one constructor for each format string of
  the module, with the format's arguments:
  \<^item> \<open>ResetEnvironment e\<close>: \<^verbatim>\<open>reset environment: %s\<close>
  \<^item> \<open>CannotRecurse d\<close>: \<^verbatim>\<open>cannot recurse into directory "%s"\<close>
  \<^item> \<open>IgnoringRecursiveLink d\<close>: \<^verbatim>\<open>ignoring "%s" (recursive link)\<close>
  \<^item> \<open>IgnoringDirectory d\<close>: \<^verbatim>\<open>ignoring "%s" (directory)\<close>
  \<^item> \<open>NotDescending d depth max\<close>: \<^verbatim>\<open>not descending in directory "%s" (depth %u > %u)\<close>
  \<^item> \<open>Recursing d\<close>: \<^verbatim>\<open>RECURSING into directory "%s"\<close>
  \<^item> \<open>Excluding p\<close>: \<^verbatim>\<open>excluding "%s"\<close>
  \<^item> \<open>IgnoringSymbolicLink p\<close>: \<^verbatim>\<open>ignoring "%s" (symbolic link)\<close>
  \<^item> \<open>CannotOpenInputFile p\<close>: \<^verbatim>\<open>cannot open input file "%s"\<close>
  \<^item> \<open>IgnoringSpecialFile p\<close>: \<^verbatim>\<open>ignoring "%s" (special file)\<close>
  \<^item> \<open>ReadingCommandLine\<close>: \<^verbatim>\<open>Reading command line arguments\<close>
  \<^item> \<open>ReadingListFile\<close>: \<^verbatim>\<open>Reading list file\<close>
  \<^item> \<open>ReadingFilterInput\<close>: \<^verbatim>\<open>Reading filter input\<close>
  \<^item> \<open>CannotOpenListFile f\<close>: \<^verbatim>\<open>cannot open list file "%s"\<close>
  \<^item> \<open>NoFilesSpecified\<close>: \<^verbatim>\<open>No files specified. Try "%s --help".\<close>
  \<^item> \<open>InvalidJson\<close>: \<^verbatim>\<open>invalid json\<close>
  \<^item> \<open>CommandNameNotFound\<close>: \<^verbatim>\<open>command name not found\<close>
  \<^item> \<open>InvalidGenerateTagsRequest\<close>: \<^verbatim>\<open>invalid generate-tags request\<close>
  \<^item> \<open>UnknownCommandName\<close>: \<^verbatim>\<open>unknown command name\<close>
\<close>

datatype message =
    ResetEnvironment string
  | CannotRecurse string
  | IgnoringRecursiveLink string
  | IgnoringDirectory string
  | NotDescending string "32 word" "32 word"
  | Recursing string
  | Excluding string
  | IgnoringSymbolicLink string
  | CannotOpenInputFile string
  | IgnoringSpecialFile string
  | ReadingCommandLine
  | ReadingListFile
  | ReadingFilterInput
  | CannotOpenListFile string
  | NoFilesSpecified
  | InvalidJson
  | CommandNameNotFound
  | InvalidGenerateTagsRequest
  | UnknownCommandName

text \<open>
  \<open>sanitizeEnviron\<close> walks the environment table. The result is the table after the
  pass and the warnings issued, in order. \<open>value[0] = '\0'\<close> cuts the entry right
  after its first \<open>=\<close>. The table pointer \<open>e\<close> stays NULL (\<open>None\<close>) on a platform
  that declares neither \<open>__environ\<close> nor \<open>_NSGetEnviron\<close>.
\<close>

fun sanitizeEnviron_loop :: "string list \<Rightarrow> (string list \<times> message list) option" where
  "sanitizeEnviron_loop [] = Some ([], [])"
| "sanitizeEnviron_loop (ei # e) =
     (let continue = map_option (\<lambda>(e', ws). (ei # e', ws)) (sanitizeEnviron_loop e) in
      case strchr ei (CHR ''='') of
        None \<Rightarrow> continue
      | Some k \<Rightarrow>
          (let val = drop (Suc k) ei in
           if strncmp val ''() {'' 4 = 0 then
             (case isSafeVar ei of
                None \<Rightarrow> None
              | Some True \<Rightarrow> continue
              | Some False \<Rightarrow>
                  map_option (\<lambda>(e', ws). (take (Suc k) ei # e', ResetEnvironment ei # ws))
                    (sanitizeEnviron_loop e))
           else continue))"

definition sanitizeEnviron :: "string list option \<Rightarrow> (string list option \<times> message list) option" where
  "sanitizeEnviron e =
     (case e of
        None \<Rightarrow> Some (None, [])
      | Some es \<Rightarrow> map_option (\<lambda>(es', ws). (Some es', ws)) (sanitizeEnviron_loop es))"

section \<open>The world of a run\<close>

text \<open>
  The status record that \<open>eStat\<close> returns, the fields of the \<open>Option\<close> structure
  that this module reads (\<open>Option.filter\<close> and \<open>Option.etagsInclude\<close> carry the
  suffix \<open>_opt\<close>), and the observable actions of a run in the order they happen.
\<close>

record fileStatus =
  exists :: bool
  isDirectory :: bool
  isSymbolicLink :: bool
  isNormalFile :: bool

record optionValues =
  recurse :: bool
  followLinks :: bool
  maxRecursionDepth :: "32 word"
  filter_opt :: bool
  filterTerminator :: "string option"
  fileList :: "string option"
  printLanguage :: bool
  printTotals :: bool
  etags :: bool
  etagsInclude_opt :: "string list option"

text \<open>
  What \<open>fputs (..., stdout)\<close> writes: the program announcement and the completed line
  of the interactive protocol, or a given text (the filter terminator).

  An action is a call that leaves the module: \<open>eStat\<close> on a path, \<open>verbose\<close> and
  \<open>error\<close> with a warning, \<open>parseFile\<close> on a path, \<open>parseFileWithMio\<close> on a file
  name and the bytes of the memory stream, \<open>openTagFile\<close>, \<open>closeTagFile\<close> with its
  flag, \<open>fputs\<close> and \<open>fflush\<close> on the standard output, and \<open>printTotals\<close>. What
  \<open>parseFile\<close> does besides returning its flag (the tags it writes, the totals it adds)
  is outside the model.
\<close>

datatype stdoutText = ProgramLine | CompletedLine | Text string

datatype event =
    EStat string
  | Verbose message
  | Warning message
  | ParseFile string
  | ParseFileWithMio string string
  | OpenTagFile
  | CloseTagFile bool
  | Fputs stdoutText
  | Fflush
  | PrintTotals

text \<open>
  The mutable state: the \<open>Option\<close> structure, the static counter \<open>recursionDepth\<close>
  of \<open>recurseIntoDirectory\<close> (an \<open>unsigned int\<close>), the bytes not yet read from the
  standard input, and the actions so far.
\<close>

record world =
  Option :: optionValues
  recursionDepth :: "32 word"
  stdin :: string
  trace :: "event list"

text \<open>
  A call returns a value and the new state, or ends the process with a fatal error, or
  needs more fuel than it was given (the directory walk is bounded by fuel, since the
  file system below it may be cyclic), or has no defined behaviour in C.
\<close>

datatype 'a outcome = Return 'a world | Fatal message world | OutOfFuel | Undefined

fun bind :: "'a outcome \<Rightarrow> ('a \<Rightarrow> world \<Rightarrow> 'b outcome) \<Rightarrow> 'b outcome" where
  "bind (Return a w) f = f a w"
| "bind (Fatal m w) f = Fatal m w"
| "bind OutOfFuel f = OutOfFuel"
| "bind Undefined f = Undefined"

datatype json =
    JsonObject "(string \<times> json) list"
  | JsonString string
  | JsonInteger "64 word"
  | JsonOther

text \<open>
  The build configuration and the collaborators that live outside this module. The
  conditional compilation chooses the directory iteration: \<open>opendir\<close>/\<open>readdir\<close>, or
  \<open>findfirst\<close>/\<open>findnext\<close> (and \<open>_findfirst\<close>/\<open>_findnext\<close>, which visit the same
  matches), or none. \<open>readdir env d\<close> is \<open>None\<close> when \<open>opendir\<close> fails and otherwise
  the names \<open>readdir\<close> yields, in order; \<open>findfirst env pat\<close> lists the names that
  match the pattern; \<open>baseFilename env p\<close> is the offset of the base name in \<open>p\<close>;
  \<open>fopen env f\<close> is the contents of the file, \<open>None\<close> when it cannot be opened;
  \<open>cArgNewFromLineFile env s\<close> are the arguments read from a stream with contents
  \<open>s\<close>; \<open>applyOption env a\<close> is the effect of the option argument \<open>a\<close> on the
  \<open>Option\<close> structure. The file system and the exclusion patterns do not change
  during a run: the collaborators that read them are functions of the path.
\<close>

datatype dirIteration = HAVE_OPENDIR | HAVE_FINDFIRST | NO_DIRECTORY_ITERATION

record env =
  dirIter :: dirIteration
  MANUAL_GLOBBING :: bool
  OUTPUT_PATH_SEPARATOR :: char
  eStat :: "string \<Rightarrow> fileStatus"
  isExcludedFile :: "string \<Rightarrow> bool"
  isRecursiveLink :: "string \<Rightarrow> bool"
  readdir :: "string \<Rightarrow> string list option"
  findfirst :: "string \<Rightarrow> string list"
  baseFilename :: "string \<Rightarrow> nat"
  combinePathAndFile :: "string \<Rightarrow> string \<Rightarrow> string"
  parseFile :: "string \<Rightarrow> bool"
  cArgIsOption :: "string \<Rightarrow> bool"
  applyOption :: "string \<Rightarrow> optionValues \<Rightarrow> optionValues"
  fopen :: "string \<Rightarrow> string option"
  cArgNewFromLineFile :: "string \<Rightarrow> string list"
  filesRequired :: "optionValues \<Rightarrow> bool"
  json_loads :: "string \<Rightarrow> json option"

definition emit :: "event \<Rightarrow> world \<Rightarrow> world" where
  "emit e w = w\<lparr>trace := trace w @ [e]\<rparr>"

definition verbose :: "message \<Rightarrow> world \<Rightarrow> world" where
  "verbose m w = emit (Verbose m) w"

text \<open>
  Modelled from the spec: \<open>error\<close> (error.c) is not part of the module at hand. A
  warning is reported and processing continues; a fatal error ends the process at once
  (modelled by the outcome \<open>Fatal\<close> at each call site).
\<close>

definition error_WARNING :: "message \<Rightarrow> world \<Rightarrow> world" where
  "error_WARNING m w = emit (Warning m) w"

definition error_FATAL :: "message \<Rightarrow> world \<Rightarrow> 'a outcome" where
  "error_FATAL m w = Fatal m w"

section \<open>Directory walker and entry classifier\<close>

text \<open>
  \<open>createTagsForEntry\<close> is declared ahead of its definition in the module, and the
  functions of the walker call it for each child. Here they take it as their first
  parameter \<open>entry\<close>; \<open>createTagsForEntry\<close> below passes itself, with less fuel.
\<close>

type_synonym classifier = "string \<Rightarrow> world \<Rightarrow> bool outcome"

fun readdir_loop :: "classifier \<Rightarrow> env \<Rightarrow> string \<Rightarrow> string list \<Rightarrow> bool \<Rightarrow> world \<Rightarrow> bool outcome" where
  "readdir_loop entry env dirName [] resize w = Return resize w"
| "readdir_loop entry env dirName (d_name # entries) resize w =
     (if strcmp d_name ''.'' \<noteq> 0 \<and> strcmp d_name ''..'' \<noteq> 0 then
        (let filePath =
           (if strcmp dirName ''.'' = 0 then d_name
            else combinePathAndFile env dirName d_name)
         in bind (entry filePath w)
              (\<lambda>r w'. readdir_loop entry env dirName entries (resize \<or> r) w'))
      else readdir_loop entry env dirName entries resize w)"

definition recurseUsingOpendir :: "classifier \<Rightarrow> env \<Rightarrow> string \<Rightarrow> world \<Rightarrow> bool outcome" where
  "recurseUsingOpendir entry env dirName w =
     (case readdir env dirName of
        None \<Rightarrow> Return False (error_WARNING (CannotRecurse dirName) w)
      | Some entries \<Rightarrow> readdir_loop entry env dirName entries False w)"

definition createTagsForWildcardEntry ::
  "classifier \<Rightarrow> string \<Rightarrow> nat \<Rightarrow> string \<Rightarrow> world \<Rightarrow> bool outcome" where
  "createTagsForWildcardEntry entry pattern dirLength entryName w =
     (if strcmp entryName ''.'' \<noteq> 0 \<and> strcmp entryName ''..'' \<noteq> 0 then
        (let filePath = take dirLength pattern @ entryName in entry filePath w)
      else Return False w)"

fun findfirst_loop ::
  "classifier \<Rightarrow> string \<Rightarrow> nat \<Rightarrow> string list \<Rightarrow> bool \<Rightarrow> world \<Rightarrow> bool outcome" where
  "findfirst_loop entry pattern dirLength [] resize w = Return resize w"
| "findfirst_loop entry pattern dirLength (name # names) resize w =
     bind (createTagsForWildcardEntry entry pattern dirLength name w)
       (\<lambda>r w'. findfirst_loop entry pattern dirLength names (resize \<or> r) w')"

definition createTagsForWildcardUsingFindfirst ::
  "classifier \<Rightarrow> env \<Rightarrow> string \<Rightarrow> world \<Rightarrow> bool outcome" where
  "createTagsForWildcardUsingFindfirst entry env pattern w =
     (let dirLength = baseFilename env pattern
      in findfirst_loop entry pattern dirLength (findfirst env pattern) False w)"

definition recurseIntoDirectory :: "classifier \<Rightarrow> env \<Rightarrow> string \<Rightarrow> world \<Rightarrow> bool outcome" where
  "recurseIntoDirectory entry env dirName w0 =
     (let w = w0\<lparr>recursionDepth := recursionDepth w0 + 1\<rparr> in
      bind
        (if isRecursiveLink env dirName then
           Return False (verbose (IgnoringRecursiveLink dirName) w)
         else if \<not> recurse (Option w) then
           Return False (verbose (IgnoringDirectory dirName) w)
         else if recursionDepth w > maxRecursionDepth (Option w) then
           Return False
             (verbose (NotDescending dirName (recursionDepth w) (maxRecursionDepth (Option w))) w)
         else
           (let w1 = verbose (Recursing dirName) w in
            case dirIter env of
              HAVE_OPENDIR \<Rightarrow> recurseUsingOpendir entry env dirName w1
            | HAVE_FINDFIRST \<Rightarrow>
                createTagsForWildcardUsingFindfirst entry env
                  (dirName @ [OUTPUT_PATH_SEPARATOR env] @ ''*.*'') w1
            | NO_DIRECTORY_ITERATION \<Rightarrow> Return False w1))
        (\<lambda>resize w'. Return resize (w'\<lparr>recursionDepth := recursionDepth w' - 1\<rparr>)))"

fun createTagsForEntry :: "nat \<Rightarrow> env \<Rightarrow> string \<Rightarrow> world \<Rightarrow> bool outcome" where
  "createTagsForEntry 0 env entryName w0 = OutOfFuel"
| "createTagsForEntry (Suc fuel) env entryName w0 =
     (let status = eStat env entryName; w = emit (EStat entryName) w0 in
      if isExcludedFile env entryName then
        Return False (verbose (Excluding entryName) w)
      else if isSymbolicLink status \<and> \<not> followLinks (Option w) then
        Return False (verbose (IgnoringSymbolicLink entryName) w)
      else if \<not> exists status then
        Return False (error_WARNING (CannotOpenInputFile entryName) w)
      else if isDirectory status then
        recurseIntoDirectory (\<lambda>p w'. createTagsForEntry fuel env p w') env entryName w
      else if \<not> isNormalFile status then
        Return False (verbose (IgnoringSpecialFile entryName) w)
      else Return (parseFile env entryName) (emit (ParseFile entryName) w))"

section \<open>Argument streams\<close>

text \<open>
  Modelled from the spec: the cursor functions \<open>cArgOff\<close>, \<open>cArgItem\<close> and
  \<open>cArgForth\<close> (args.c) are not part of the module at hand. A cooked argument stream
  is a forward-only stream of tokens; it is modelled by the list of the arguments from the
  cursor on: \<open>cArgOff\<close> holds at its end, \<open>cArgItem\<close> is the argument at the cursor
  and \<open>cArgForth\<close> moves the cursor by one.
\<close>

definition cArgOff :: "string list \<Rightarrow> bool" where
  "cArgOff args = (args = [])"

definition cArgItem :: "string list \<Rightarrow> string" where
  "cArgItem args = (case args of [] \<Rightarrow> [] | a # _ \<Rightarrow> a)"

definition cArgForth :: "string list \<Rightarrow> string list" where
  "cArgForth args = tl args"

text \<open>
  Modelled from the spec: \<open>parseCmdlineOptions\<close> (options.c) is not part of the module
  at hand. Option tokens at the cursor are consumed and stripped, each with its effect on
  the \<open>Option\<close> structure, before the next positional item is inspected: afterwards the
  cursor is at a positional item or at the end.
\<close>

fun parseOptions :: "env \<Rightarrow> string list \<Rightarrow> optionValues \<Rightarrow> string list \<times> optionValues" where
  "parseOptions env [] opts = ([], opts)"
| "parseOptions env (a # args) opts =
     (if cArgIsOption env a then parseOptions env args (applyOption env a opts)
      else (a # args, opts))"

definition parseCmdlineOptions :: "env \<Rightarrow> string list \<Rightarrow> world \<Rightarrow> string list \<times> world" where
  "parseCmdlineOptions env args w =
     (case parseOptions env args (Option w) of (args', opts) \<Rightarrow> (args', w\<lparr>Option := opts\<rparr>))"

lemma length_parseOptions: "length (fst (parseOptions env args opts)) \<le> length args"
  by (induction args arbitrary: opts) (auto intro: le_SucI)

lemma length_parseCmdlineOptions:
  "parseCmdlineOptions env args w = (args', w') \<Longrightarrow> length args' \<le> length args"
  using length_parseOptions [of env args "Option w"]
  by (auto simp: parseCmdlineOptions_def split: prod.splits)

section \<open>Orchestrator\<close>

definition createTagsForWildcardArg :: "classifier \<Rightarrow> env \<Rightarrow> string \<Rightarrow> world \<Rightarrow> bool outcome" where
  "createTagsForWildcardArg entry env arg w =
     (case dirIter env of
        HAVE_FINDFIRST \<Rightarrow>
          (let pattern =
             (if recurse (Option w) \<and> (strcmp arg ''.'' = 0 \<or> strcmp arg ''..'' = 0)
              then arg @ [OUTPUT_PATH_SEPARATOR env] @ ''*.*'' else arg)
           in createTagsForWildcardUsingFindfirst entry env pattern w)
      | _ \<Rightarrow> Return False w)"

function createTagsForArgs_loop ::
  "classifier \<Rightarrow> env \<Rightarrow> string list \<Rightarrow> bool \<Rightarrow> world \<Rightarrow> bool outcome" where
  "createTagsForArgs_loop entry env args resize w =
     (if cArgOff args then Return resize w
      else
        (let arg = cArgItem args in
         bind (if MANUAL_GLOBBING env then createTagsForWildcardArg entry env arg w
               else entry arg w)
           (\<lambda>r w1. case parseCmdlineOptions env (cArgForth args) w1 of
                      (args', w2) \<Rightarrow> createTagsForArgs_loop entry env args' (resize \<or> r) w2)))"
  by pat_completeness auto
termination
  apply (relation "measure (\<lambda>(entry, env, args, resize, w). length args)")
   apply simp
  apply (auto simp: cArgOff_def cArgForth_def dest!: length_parseCmdlineOptions [OF sym])
  apply (case_tac args; simp)
  done

definition createTagsForArgs :: "classifier \<Rightarrow> env \<Rightarrow> string list \<Rightarrow> world \<Rightarrow> bool outcome" where
  "createTagsForArgs entry env args w = createTagsForArgs_loop entry env args False w"

text \<open>
  A stream handed to \<open>createTagsFromFileInput\<close>: the standard input, or a file opened
  on the given contents; \<open>None\<close> is the NULL pointer. Reading the standard input to
  its end leaves nothing on it.
\<close>

datatype FILE = Stdin | Opened string

function createTagsFromFileInput_loop ::
  "classifier \<Rightarrow> env \<Rightarrow> bool \<Rightarrow> string list \<Rightarrow> bool \<Rightarrow> world \<Rightarrow> bool outcome" where
  "createTagsFromFileInput_loop entry env filter_p args resize w =
     (if cArgOff args then Return resize w
      else
        bind (entry (cArgItem args) w)
          (\<lambda>r w1.
             let w2 =
               (if filter_p then
                  emit Fflush
                    (case filterTerminator (Option w1) of
                       Some t \<Rightarrow> emit (Fputs (Text t)) w1
                     | None \<Rightarrow> w1)
                else w1)
             in case parseCmdlineOptions env (cArgForth args) w2 of
                  (args', w3) \<Rightarrow>
                    createTagsFromFileInput_loop entry env filter_p args' (resize \<or> r) w3))"
  by pat_completeness auto
termination
  apply (relation "measure (\<lambda>(entry, env, filter_p, args, resize, w). length args)")
   apply simp
  apply (auto simp: cArgOff_def cArgForth_def dest!: length_parseCmdlineOptions [OF sym])
  apply (case_tac args; simp)
  done

definition createTagsFromFileInput ::
  "classifier \<Rightarrow> env \<Rightarrow> FILE option \<Rightarrow> bool \<Rightarrow> world \<Rightarrow> bool outcome" where
  "createTagsFromFileInput entry env fp filter_p w =
     (case fp of
        None \<Rightarrow> Return False w
      | Some f \<Rightarrow>
          (case (case f of Stdin \<Rightarrow> (stdin w, w\<lparr>stdin := []\<rparr>) | Opened s \<Rightarrow> (s, w)) of
             (contents, w0) \<Rightarrow>
               (case parseCmdlineOptions env (cArgNewFromLineFile env contents) w0 of
                  (args, w1) \<Rightarrow> createTagsFromFileInput_loop entry env filter_p args False w1)))"

definition createTagsFromListFile :: "classifier \<Rightarrow> env \<Rightarrow> string \<Rightarrow> world \<Rightarrow> bool outcome" where
  "createTagsFromListFile entry env fileName w =
     (if strcmp fileName ''-'' = 0 then createTagsFromFileInput entry env (Some Stdin) False w
      else
        (case fopen env fileName of
           None \<Rightarrow> error_FATAL (CannotOpenListFile fileName) w
         | Some s \<Rightarrow> createTagsFromFileInput entry env (Some (Opened s)) False w))"

section \<open>Batch main loop\<close>

definition etagsInclude :: "optionValues \<Rightarrow> bool" where
  "etagsInclude opts = (etags opts \<and> etagsInclude_opt opts \<noteq> None)"

text \<open>
  The time stamps read the clock and act on nothing else; \<open>printTotals\<close> is the one
  action \<open>PrintTotals\<close>. The batch loop runs the classifier with the fuel it is given.
\<close>

definition batchMakeTags :: "nat \<Rightarrow> env \<Rightarrow> string list \<Rightarrow> world \<Rightarrow> unit outcome" where
  "batchMakeTags fuel env args w =
     (let entry = createTagsForEntry fuel env;
          files = (\<not> cArgOff args \<or> fileList (Option w) \<noteq> None \<or> filter_opt (Option w))
      in
      if \<not> files \<and> filesRequired env (Option w) then error_FATAL NoFilesSpecified w
      else if \<not> files \<and> \<not> recurse (Option w) \<and> \<not> etagsInclude (Option w) then Return () w
      else
        (let w1 =
           (if \<not> filter_opt (Option w) \<and> \<not> printLanguage (Option w) then emit OpenTagFile w
            else w)
         in
         bind (if \<not> cArgOff args then
                 createTagsForArgs entry env args (verbose ReadingCommandLine w1)
               else Return False w1)
         (\<lambda>resize w2.
         bind (case fileList (Option w2) of
                 Some fileName \<Rightarrow>
                   bind (createTagsFromListFile entry env fileName (verbose ReadingListFile w2))
                     (\<lambda>r w'. Return (r \<or> resize) w')
               | None \<Rightarrow> Return resize w2)
         (\<lambda>resize w3.
         bind (if filter_opt (Option w3) then
                 bind (createTagsFromFileInput entry env (Some Stdin) True
                         (verbose ReadingFilterInput w3))
                   (\<lambda>r w'. Return (r \<or> resize) w')
               else Return resize w3)
         (\<lambda>resize w4.
         bind (if \<not> files \<and> recurse (Option w4) then recurseIntoDirectory entry env ''.'' w4
               else Return resize w4)
         (\<lambda>resize w5.
           (let w6 =
              (if \<not> filter_opt (Option w5) \<and> \<not> printLanguage (Option w5)
               then emit (CloseTagFile resize) w5 else w5);
                w7 = (if printTotals (Option w6) then emit PrintTotals w6 else w6)
            in Return () w7)))))))"

section \<open>Interactive main loop\<close>

text \<open>
  \<open>fgets (buffer, size, stdin)\<close> reads at most \<open>size - 1\<close> characters and stops after a
  newline; it returns NULL (\<open>None\<close>) when the stream is at its end. The result is the
  buffer and the rest of the stream.
\<close>

fun fgets_chars :: "nat \<Rightarrow> string \<Rightarrow> string \<times> string" where
  "fgets_chars 0 s = ([], s)"
| "fgets_chars (Suc n) [] = ([], [])"
| "fgets_chars (Suc n) (c # s) =
     (if c = CHR 0x0A then ([c], s)
      else (case fgets_chars n s of (line, rest) \<Rightarrow> (c # line, rest)))"

definition fgets :: "nat \<Rightarrow> string \<Rightarrow> (string \<times> string) option" where
  "fgets n s = (if s = [] then None else Some (fgets_chars (n - 1) s))"

text \<open>
  The jansson calls of the loop. \<open>json_object_get\<close> and \<open>json_string_value\<close> return
  NULL (\<open>None\<close>) on a value of the wrong kind; \<open>json_unpack\<close> with the format
  \<open>{ss}\<close> or \<open>{sI}\<close> succeeds when the request is an object that holds a string or
  an integer under the key.
\<close>

definition json_object_get :: "json \<Rightarrow> string \<Rightarrow> json option" where
  "json_object_get j key = (case j of JsonObject kvs \<Rightarrow> map_of kvs key | _ \<Rightarrow> None)"

definition json_string_value :: "json \<Rightarrow> string option" where
  "json_string_value j = (case j of JsonString s \<Rightarrow> Some s | _ \<Rightarrow> None)"

definition json_unpack_ss :: "json \<Rightarrow> string \<Rightarrow> string option" where
  "json_unpack_ss j key =
     (case json_object_get j key of Some (JsonString s) \<Rightarrow> Some s | _ \<Rightarrow> None)"

definition json_unpack_sI :: "json \<Rightarrow> string \<Rightarrow> 64 word option" where
  "json_unpack_sI j key =
     (case json_object_get j key of Some (JsonInteger n) \<Rightarrow> Some n | _ \<Rightarrow> None)"

text \<open>
  The body of the loop for one buffer that does not start with a newline. \<open>size\<close>
  (here \<open>sz\<close>) is a \<open>json_int_t\<close>, a signed 64-bit integer; passed to \<open>eMalloc\<close>
  and \<open>fread\<close> it is converted to a 64-bit \<open>size_t\<close>, which reads the same bits as
  unsigned. The allocation is taken to succeed. \<open>fread\<close> takes the bytes from the
  standard input, as many as there are up to the requested number. A \<open>command\<close> that is not a string gives \<open>strcmp\<close> a NULL
  pointer.
\<close>

definition size_t :: "64 word \<Rightarrow> nat" where
  "size_t n = unat n"

definition interactiveRequest :: "classifier \<Rightarrow> env \<Rightarrow> string \<Rightarrow> world \<Rightarrow> unit outcome" where
  "interactiveRequest entry env buffer w =
     (case json_loads env buffer of
        None \<Rightarrow> error_FATAL InvalidJson w
      | Some request \<Rightarrow>
          (case json_object_get request ''command'' of
             None \<Rightarrow> error_FATAL CommandNameNotFound w
           | Some command \<Rightarrow>
               (case json_string_value command of
                  None \<Rightarrow> Undefined
                | Some name \<Rightarrow>
                    if strcmp ''generate-tags'' name = 0 then
                      (case json_unpack_ss request ''filename'' of
                         None \<Rightarrow> error_FATAL InvalidGenerateTagsRequest w
                       | Some filename \<Rightarrow>
                           (let sz = (case json_unpack_sI request ''size'' of
                                          None \<Rightarrow> - 1 | Some n \<Rightarrow> n);
                                w1 = emit OpenTagFile w
                            in
                            bind (if sz = - 1 then
                                    bind (entry filename w1) (\<lambda>r w'. Return () w')
                                  else
                                    (let data = take (size_t sz) (stdin w1);
                                         w2 = w1\<lparr>stdin := drop (size_t sz) (stdin w1)\<rparr>
                                     in Return () (emit (ParseFileWithMio filename data) w2)))
                              (\<lambda>u w3. Return ()
                                 (emit Fflush
                                   (emit (Fputs CompletedLine)
                                     (emit (CloseTagFile False) w3))))))
                    else error_FATAL UnknownCommandName w)))"

fun interactiveLoop_while :: "nat \<Rightarrow> env \<Rightarrow> world \<Rightarrow> unit outcome" where
  "interactiveLoop_while 0 env w = OutOfFuel"
| "interactiveLoop_while (Suc fuel) env w =
     (case fgets 1024 (stdin w) of
        None \<Rightarrow> Return () w
      | Some (buffer, rest) \<Rightarrow>
          (let w1 = w\<lparr>stdin := rest\<rparr> in
           if (case buffer of [] \<Rightarrow> False | c # _ \<Rightarrow> c = CHR 0x0A) then
             interactiveLoop_while fuel env w1
           else
             bind (interactiveRequest (createTagsForEntry fuel env) env buffer w1)
               (\<lambda>u w2. interactiveLoop_while fuel env w2)))"

definition interactiveLoop :: "nat \<Rightarrow> env \<Rightarrow> world \<Rightarrow> unit outcome" where
  "interactiveLoop fuel env w =
     interactiveLoop_while fuel env (emit Fflush (emit (Fputs ProgramLine) w))"

section \<open>Specification-side definitions\<close>

text \<open>
  The child set of an expanded directory: the names the iteration yields, without the
  self and parent entries. \<open>classifyEach\<close> hands every path of a list to the
  classifier, in order, and folds the results by disjunction.
\<close>

definition children :: "string list \<Rightarrow> string list" where
  "children entries = filter (\<lambda>n. n \<noteq> ''.'' \<and> n \<noteq> ''..'') entries"

fun classifyEach :: "classifier \<Rightarrow> string list \<Rightarrow> bool \<Rightarrow> world \<Rightarrow> bool outcome" where
  "classifyEach entry [] resize w = Return resize w"
| "classifyEach entry (p # ps) resize w =
     bind (entry p w) (\<lambda>r w'. classifyEach entry ps (resize \<or> r) w')"

text \<open>The decision order of the entry classifier, first match wins.\<close>

datatype entryClass =
  Excluded | SymbolicLinkSkipped | Missing | Directory | SpecialFile | RegularFile

definition classify :: "env \<Rightarrow> optionValues \<Rightarrow> string \<Rightarrow> entryClass" where
  "classify env opts p =
     (if isExcludedFile env p then Excluded
      else if isSymbolicLink (eStat env p) \<and> \<not> followLinks opts then SymbolicLinkSkipped
      else if \<not> exists (eStat env p) then Missing
      else if isDirectory (eStat env p) then Directory
      else if \<not> isNormalFile (eStat env p) then SpecialFile
      else RegularFile)"

definition emits :: "event list \<Rightarrow> world \<Rightarrow> world" where
  "emits evs w = w\<lparr>trace := trace w @ evs\<rparr>"

text \<open>
  The actions of the walk below one entry, and the result of a parse among them. A
  call has \<open>walked\<close> from \<open>w\<close> with the flag \<open>resize\<close> when it ran out of fuel, or
  returned a state that differs from \<open>w\<close> by actions of the walk only, with the flag
  or-ed with the results of the parses among them.
\<close>

fun walkEvent :: "event \<Rightarrow> bool" where
  "walkEvent (EStat p) = True"
| "walkEvent (Verbose m) = True"
| "walkEvent (Warning m) = True"
| "walkEvent (ParseFile p) = True"
| "walkEvent e = False"

fun parseResult :: "env \<Rightarrow> event \<Rightarrow> bool" where
  "parseResult env (ParseFile p) = parseFile env p"
| "parseResult env e = False"

definition walked :: "env \<Rightarrow> world \<Rightarrow> bool \<Rightarrow> bool outcome \<Rightarrow> bool" where
  "walked env w resize out =
     (case out of
        Return r w' \<Rightarrow>
          (\<exists>evs. w' = w\<lparr>trace := trace w @ evs\<rparr> \<and> list_all walkEvent evs \<and>
             r = (resize \<or> list_ex (parseResult env) evs))
      | OutOfFuel \<Rightarrow> True
      | _ \<Rightarrow> False)"

definition walks :: "env \<Rightarrow> classifier \<Rightarrow> bool" where
  "walks env entry = (\<forall>p w. walked env w False (entry p w))"

text \<open>
  What a run writes on the standard output is the projection of its actions to \<open>fputs\<close>
  and \<open>fflush\<close>. \<open>entryOutput\<close> is what filter mode asks for after one entry: the
  terminator if one is configured at that moment, then a flush; nothing outside filter
  mode. \<open>filterOutput\<close> is that output for a whole stream of arguments, where option
  arguments change the \<open>Option\<close> structure and every other argument is an entry;
  \<open>loopOutput\<close> is the same for a cursor that stands on an entry.
\<close>

fun stdoutEvent :: "event \<Rightarrow> bool" where
  "stdoutEvent (Fputs t) = True"
| "stdoutEvent Fflush = True"
| "stdoutEvent e = False"

definition stdoutEvents :: "event list \<Rightarrow> event list" where
  "stdoutEvents evs = filter stdoutEvent evs"

definition entryOutput :: "bool \<Rightarrow> optionValues \<Rightarrow> event list" where
  "entryOutput filter_p opts =
     (if filter_p then
        (case filterTerminator opts of Some t \<Rightarrow> [Fputs (Text t)] | None \<Rightarrow> []) @ [Fflush]
      else [])"

fun filterOutput :: "env \<Rightarrow> bool \<Rightarrow> string list \<Rightarrow> optionValues \<Rightarrow> event list" where
  "filterOutput env filter_p [] opts = []"
| "filterOutput env filter_p (a # args) opts =
     (if cArgIsOption env a then filterOutput env filter_p args (applyOption env a opts)
      else entryOutput filter_p opts @ filterOutput env filter_p args opts)"

definition loopOutput :: "env \<Rightarrow> bool \<Rightarrow> string list \<Rightarrow> optionValues \<Rightarrow> event list" where
  "loopOutput env filter_p args opts =
     (case args of [] \<Rightarrow> []
      | a # rest \<Rightarrow> entryOutput filter_p opts @ filterOutput env filter_p rest opts)"

text \<open>
  The actions a call has added to the state it started from. A stage of the batch loop
  has \<open>ran\<close> from \<open>w\<close> with the flag \<open>resize\<close> when, if it returns, it has added
  actions other than \<open>closeTagFile\<close> and returns the flag or-ed with the results of the
  parses among them. The batch loop \<open>closesWith\<close> the flag when every \<open>closeTagFile\<close>
  among the actions it adds carries the flag or-ed with the results of all parses.
  \<open>finishBatch\<close> names the end of \<open>batchMakeTags\<close>: \<open>closeTagFile\<close> and the totals.
\<close>

fun closeEvent :: "event \<Rightarrow> bool" where
  "closeEvent (CloseTagFile b) = True"
| "closeEvent e = False"

definition newEvents :: "world \<Rightarrow> world \<Rightarrow> event list" where
  "newEvents w w' = drop (length (trace w)) (trace w')"

definition ran :: "env \<Rightarrow> world \<Rightarrow> bool \<Rightarrow> bool outcome \<Rightarrow> bool" where
  "ran env w resize out =
     (case out of
        Return r w' \<Rightarrow>
          (\<exists>evs. trace w' = trace w @ evs \<and> list_all (\<lambda>e. \<not> closeEvent e) evs \<and>
             r = (resize \<or> list_ex (parseResult env) evs))
      | _ \<Rightarrow> True)"

definition closesWith :: "env \<Rightarrow> world \<Rightarrow> bool \<Rightarrow> unit outcome \<Rightarrow> bool" where
  "closesWith env w resize out =
     (case out of
        Return u w' \<Rightarrow>
          (\<exists>evs. trace w' = trace w @ evs \<and>
             (\<forall>b. CloseTagFile b \<in> set evs \<longrightarrow> b = (resize \<or> list_ex (parseResult env) evs)))
      | _ \<Rightarrow> True)"

definition finishBatch :: "bool \<Rightarrow> world \<Rightarrow> unit outcome" where
  "finishBatch resize w5 =
     Return ()
       (let w6 = (if \<not> filter_opt (Option w5) \<and> \<not> printLanguage (Option w5)
                  then emit (CloseTagFile resize) w5 else w5)
        in if printTotals (Option w6) then emit PrintTotals w6 else w6)"


text \<open>
  The entries of a source of file names, and the result of each. A positional argument
  resolves to itself, or with manual globbing to the matches of its pattern other than
  \<open>.\<close> and \<open>..\<close>, each under the directory part of the pattern. \<open>resolveEach\<close>
  classifies the given paths in order and returns the list of their results.
  \<open>resolveTokens\<close> goes through a stream of arguments: an option argument changes the
  \<open>Option\<close> structure; any other argument is resolved, its entries are classified, and
  after them comes what filter mode writes for the entry. \<open>resolveCursor\<close> is the same
  for a cursor that stands on an item. The result is the list of the results of all the
  entries, in order; \<open>anyOf\<close> is the logical or of such a list.
\<close>

fun anyOf :: "bool list \<Rightarrow> bool" where
  "anyOf [] = False"
| "anyOf (r # rs) = (r \<or> anyOf rs)"

definition resolvedItem :: "env \<Rightarrow> bool \<Rightarrow> optionValues \<Rightarrow> string \<Rightarrow> string list" where
  "resolvedItem env glob opts arg =
     (if \<not> glob then [arg]
      else
        (case dirIter env of
           HAVE_FINDFIRST \<Rightarrow>
             (let pattern =
                (if recurse opts \<and> (arg = ''.'' \<or> arg = ''..'')
                 then arg @ [OUTPUT_PATH_SEPARATOR env] @ ''*.*'' else arg)
              in map (\<lambda>n. take (baseFilename env pattern) pattern @ n)
                   (children (findfirst env pattern)))
         | _ \<Rightarrow> []))"

fun resolveEach :: "classifier \<Rightarrow> string list \<Rightarrow> world \<Rightarrow> bool list outcome" where
  "resolveEach entry [] w = Return [] w"
| "resolveEach entry (p # ps) w =
     bind (entry p w)
       (\<lambda>r w1. bind (resolveEach entry ps w1) (\<lambda>rs w2. Return (r # rs) w2))"

fun resolveTokens ::
  "classifier \<Rightarrow> env \<Rightarrow> bool \<Rightarrow> bool \<Rightarrow> string list \<Rightarrow> world \<Rightarrow> bool list outcome" where
  "resolveTokens entry env glob filter_p [] w = Return [] w"
| "resolveTokens entry env glob filter_p (a # toks) w =
     (if cArgIsOption env a then
        resolveTokens entry env glob filter_p toks (w\<lparr>Option := applyOption env a (Option w)\<rparr>)
      else
        bind (resolveEach entry (resolvedItem env glob (Option w) a) w)
          (\<lambda>rs w1.
             bind (resolveTokens entry env glob filter_p toks
                     (emits (entryOutput filter_p (Option w1)) w1))
               (\<lambda>rs' w2. Return (rs @ rs') w2)))"

definition resolveCursor ::
  "classifier \<Rightarrow> env \<Rightarrow> bool \<Rightarrow> bool \<Rightarrow> string list \<Rightarrow> world \<Rightarrow> bool list outcome" where
  "resolveCursor entry env glob filter_p args w =
     (case args of
        [] \<Rightarrow> Return [] w
      | a # toks \<Rightarrow>
          bind (resolveEach entry (resolvedItem env glob (Option w) a) w)
            (\<lambda>rs w1.
               bind (resolveTokens entry env glob filter_p toks
                       (emits (entryOutput filter_p (Option w1)) w1))
                 (\<lambda>rs' w2. Return (rs @ rs') w2)))"

text \<open>
  The sources of a batch run. The entries of a stream of file names are those of its
  arguments, read to the end of the stream; a list file named \<open>-\<close> is the standard
  input, and a list file that cannot be opened is fatal. \<open>resolveSources\<close> goes through
  the active sources in order: the positional arguments, the list file, the filter input,
  and, when none of these is active and recursion is enabled, the directory \<open>.\<close> as one
  entry whose result is that of the directory walk. It returns the results of all
  entries of all sources. The tag file is opened first unless filter mode or the printing
  of a language is on.
\<close>

definition resolveFileInput ::
  "classifier \<Rightarrow> env \<Rightarrow> FILE option \<Rightarrow> bool \<Rightarrow> world \<Rightarrow> bool list outcome" where
  "resolveFileInput entry env fp filter_p w =
     (case fp of
        None \<Rightarrow> Return [] w
      | Some f \<Rightarrow>
          resolveTokens entry env False filter_p
            (cArgNewFromLineFile env (case f of Stdin \<Rightarrow> stdin w | Opened s \<Rightarrow> s))
            (case f of Stdin \<Rightarrow> w\<lparr>stdin := []\<rparr> | Opened s \<Rightarrow> w))"

definition resolveListFile :: "classifier \<Rightarrow> env \<Rightarrow> string \<Rightarrow> world \<Rightarrow> bool list outcome" where
  "resolveListFile entry env fileName w =
     (if fileName = ''-'' then resolveFileInput entry env (Some Stdin) False w
      else
        (case fopen env fileName of
           None \<Rightarrow> Fatal (CannotOpenListFile fileName) w
         | Some s \<Rightarrow> resolveFileInput entry env (Some (Opened s)) False w))"

definition resolveSources :: "nat \<Rightarrow> env \<Rightarrow> string list \<Rightarrow> world \<Rightarrow> bool list outcome" where
  "resolveSources fuel env args w =
     (let entry = createTagsForEntry fuel env;
          active = (\<not> cArgOff args \<or> fileList (Option w) \<noteq> None \<or> filter_opt (Option w));
          w1 = (if \<not> filter_opt (Option w) \<and> \<not> printLanguage (Option w)
                then emit OpenTagFile w else w)
      in
      bind (if \<not> cArgOff args then
              resolveCursor entry env (MANUAL_GLOBBING env) False args
                (verbose ReadingCommandLine w1)
            else Return [] w1)
      (\<lambda>rs1 w2.
      bind (case fileList (Option w2) of
              Some fileName \<Rightarrow> resolveListFile entry env fileName (verbose ReadingListFile w2)
            | None \<Rightarrow> Return [] w2)
      (\<lambda>rs2 w3.
      bind (if filter_opt (Option w3) then
              resolveFileInput entry env (Some Stdin) True (verbose ReadingFilterInput w3)
            else Return [] w3)
      (\<lambda>rs3 w4.
      bind (if \<not> active \<and> recurse (Option w4) then
              bind (recurseIntoDirectory entry env ''.'' w4) (\<lambda>r w5. Return [r] w5)
            else Return [] w4)
      (\<lambda>rs4 w5. Return (rs1 @ rs2 @ rs3 @ rs4) w5)))))"

text \<open>
  The entries of a stream of arguments, each with the \<open>Option\<close> structure in force
  when it is reached.
\<close>

fun entriesWithOptions ::
  "env \<Rightarrow> string list \<Rightarrow> optionValues \<Rightarrow> (string \<times> optionValues) list" where
  "entriesWithOptions env [] opts = []"
| "entriesWithOptions env (a # toks) opts =
     (if cArgIsOption env a then entriesWithOptions env toks (applyOption env a opts)
      else (a, opts) # entriesWithOptions env toks opts)"

text \<open>
  The actions of one entry of a stream: the status query of the entry, the other actions
  of its classification, and then what filter mode writes for it under the options in
  force. A classifier \<open>statsFirst\<close> when a call that returns has added the status
  query of its path followed by actions of the walk only, and has changed nothing else.
\<close>

definition entryBlock :: "bool \<Rightarrow> event list \<times> string \<times> optionValues \<Rightarrow> event list" where
  "entryBlock filter_p b =
     (case b of (rest, a, opts) \<Rightarrow> EStat a # rest @ entryOutput filter_p opts)"

definition statsFirst :: "classifier \<Rightarrow> bool" where
  "statsFirst entry =
     (\<forall>p w r w1. entry p w = Return r w1 \<longrightarrow>
        (\<exists>rest. w1 = w\<lparr>trace := trace w @ EStat p # rest\<rparr> \<and> list_all walkEvent rest))"

section \<open>A small file system\<close>

text \<open>
  The concrete inputs of the examples below: the current directory holds \<open>b.c\<close> and
  the directory \<open>d\<close>, which holds \<open>a.c\<close>; \<open>empty\<close> is a directory with no child;
  \<open>a.c\<close> is a regular file as well. Parsing \<open>a.c\<close> or \<open>d/a.c\<close> asks for a resize.
  The list file \<open>files.txt\<close>, like any stream that is not empty, names \<open>b.c\<close> and
  \<open>a.c\<close>.
\<close>

definition demoStat :: "string \<Rightarrow> fileStatus" where
  "demoStat p =
     (if p = ''a.c'' \<or> p = ''b.c'' \<or> p = ''d/a.c'' then
        \<lparr>exists = True, isDirectory = False, isSymbolicLink = False, isNormalFile = True\<rparr>
      else if p = ''.'' \<or> p = ''d'' \<or> p = ''empty'' then
        \<lparr>exists = True, isDirectory = True, isSymbolicLink = False, isNormalFile = False\<rparr>
      else \<lparr>exists = False, isDirectory = False, isSymbolicLink = False, isNormalFile = False\<rparr>)"

text \<open>
  An interactive request for a virtual file \<open>x.c\<close> of 10 bytes, as the line read
  from the standard input and as the value the JSON parser makes of it.
\<close>

definition demoRequestLine :: string where
  \<open>demoRequestLine =
     ''{"command":"generate-tags","filename":"x.c","size":10}'' @ [CHR 0x0A]\<close>

definition demoRequest :: json where
  "demoRequest =
     JsonObject
       [(''command'', JsonString ''generate-tags''), (''filename'', JsonString ''x.c''),
        (''size'', JsonInteger 10)]"

definition demoEnv :: env where
  "demoEnv =
     \<lparr>dirIter = HAVE_OPENDIR, MANUAL_GLOBBING = False, OUTPUT_PATH_SEPARATOR = CHR ''/'',
      eStat = demoStat, isExcludedFile = (\<lambda>p. False), isRecursiveLink = (\<lambda>p. False),
      readdir = (\<lambda>d. if d = ''d'' then Some [''.'', ''..'', ''a.c'']
                     else if d = ''.'' then Some [''.'', ''..'', ''b.c'', ''d'']
                     else if d = ''empty'' then Some [''.'', ''..''] else None),
      findfirst = (\<lambda>pat. if pat = ''d/*.*'' then [''.'', ''..'', ''a.c''] else []),
      baseFilename = (\<lambda>p. if p = ''d/*.*'' then 2 else 0),
      combinePathAndFile = (\<lambda>d f. d @ ''/'' @ f),
      parseFile = (\<lambda>p. p = ''a.c'' \<or> p = ''d/a.c''),
      cArgIsOption = (\<lambda>a. case a of [] \<Rightarrow> False | c # cs \<Rightarrow> c = CHR ''-''),
      applyOption = (\<lambda>a opts. opts),
      fopen = (\<lambda>f. if f = ''files.txt'' then Some ''list'' else None),
      cArgNewFromLineFile = (\<lambda>s. if s = [] then [] else [''b.c'', ''a.c'']),
      filesRequired = (\<lambda>opts. \<not> recurse opts),
      json_loads = (\<lambda>s. if s = demoRequestLine then Some demoRequest else None)\<rparr>"

definition demoOptions :: optionValues where
  "demoOptions =
     \<lparr>recurse = True, followLinks = True, maxRecursionDepth = 5, filter_opt = False,
      filterTerminator = None, fileList = None, printLanguage = False, printTotals = False,
      etags = False, etagsInclude_opt = None\<rparr>"

definition demoWorld :: world where
  "demoWorld = \<lparr>Option = demoOptions, recursionDepth = 0, stdin = [], trace = []\<rparr>"

section \<open>Properties of the environment sanitizer\<close>

lemma strncmp_zero_length: "strncmp a b 0 = 0"
  by simp

lemma isSafeVar_loop_accepts: "isSafeVar_loop var sv = Some True"
  by (induction sv) (simp_all add: strlen_def)

lemma isSafeVar_accepts_every_name: "isSafeVar var = Some True"
  by (simp add: isSafeVar_def isSafeVar_loop_accepts)

lemma sanitizeEnviron_loop_identity: "sanitizeEnviron_loop e = Some (e, [])"
  by (induction e) (simp_all add: isSafeVar_accepts_every_name Let_def split: option.splits)

lemma sanitizeEnviron_changes_nothing: "sanitizeEnviron e = Some (e, [])"
  by (cases e) (simp_all add: sanitizeEnviron_def sanitizeEnviron_loop_identity)

text \<open>
  C1. The claim: an entry whose value begins with \<^verbatim>\<open>() {\<close> is cut to an empty value
  and reported, unless its name is \<^verbatim>\<open>BASH_FUNC_module()=\<close> or \<^verbatim>\<open>BASH_FUNC_scl()=\<close>.
  The code at the entry \<^verbatim>\<open>MYFUNC=() { :; }\<close>, whose name is on no allow-list: the
  entry is returned as it was and no warning is issued, because the allow-list loop
  steps through the characters of its first name and accepts at the terminating NUL,
  where the compared length is 0.
\<close>

theorem sanitizeEnviron_keeps_exported_function:
  "isSafeVar ''MYFUNC=() { :; }'' = Some True \<and>
   sanitizeEnviron (Some [''MYFUNC=() { :; }'']) = Some (Some [''MYFUNC=() { :; }''], [])"
  by (simp add: isSafeVar_accepts_every_name sanitizeEnviron_changes_nothing)

section \<open>The directory walk\<close>

lemma strncmp_eq_0_iff: "strncmp a b n = 0 \<longleftrightarrow> take n a = take n b"
  by (induction a b n rule: strncmp.induct) auto

lemma strcmp_eq_0_iff: "strcmp a b = 0 \<longleftrightarrow> a = b"
  by (simp add: strcmp_def strncmp_eq_0_iff)

lemma bind_cong_fun: "(\<And>r w'. f r w' = g r w') \<Longrightarrow> bind m f = bind m g"
  by (cases m) simp_all

lemma readdir_loop_classifyEach:
  "readdir_loop entry env dirName entries resize w =
   classifyEach entry
     (map (\<lambda>n. if dirName = ''.'' then n else combinePathAndFile env dirName n) (children entries))
     resize w"
  by (induction entries arbitrary: resize w)
     (auto simp: children_def strcmp_eq_0_iff intro!: bind_cong_fun)

lemma findfirst_loop_classifyEach:
  "findfirst_loop entry pattern dirLength names resize w =
   classifyEach entry (map (\<lambda>n. take dirLength pattern @ n) (children names)) resize w"
  by (induction names arbitrary: resize w)
     (auto simp: children_def strcmp_eq_0_iff createTagsForWildcardEntry_def intro!: bind_cong_fun)

lemma walked_Return:
  "list_all walkEvent evs \<Longrightarrow> r = (a \<or> list_ex (parseResult env) evs) \<Longrightarrow>
   walked env w a (Return r (w\<lparr>trace := trace w @ evs\<rparr>))"
  by (auto simp: walked_def)

lemma walked_Return_same: "walked env w a (Return a w)"
  using walked_Return [of "[]" a a env w] by simp

lemma walked_bind:
  assumes m: "walked env w a m"
    and f: "\<And>r w'. m = Return r w' \<Longrightarrow> walked env w' (b \<or> r) (f r w')"
  shows "walked env w (b \<or> a) (bind m f)"
proof (cases m)
  case (Return r w')
  from m Return obtain evs1 where w': "w' = w\<lparr>trace := trace w @ evs1\<rparr>"
    and ev1: "list_all walkEvent evs1" and r: "r = (a \<or> list_ex (parseResult env) evs1)"
    by (auto simp: walked_def)
  show ?thesis
  proof (cases "f r w'")
    case (Return r2 w2)
    from f [OF \<open>m = Return r w'\<close>] Return obtain evs2
      where w2: "w2 = w'\<lparr>trace := trace w' @ evs2\<rparr>"
      and ev2: "list_all walkEvent evs2"
      and r2: "r2 = ((b \<or> r) \<or> list_ex (parseResult env) evs2)"
      by (auto simp: walked_def)
    have "w2 = w\<lparr>trace := trace w @ (evs1 @ evs2)\<rparr>"
      by (simp add: w2 w')
    moreover have "list_all walkEvent (evs1 @ evs2)"
      using ev1 ev2 by simp
    moreover have "r2 = ((b \<or> a) \<or> list_ex (parseResult env) (evs1 @ evs2))"
      using r r2 by auto
    ultimately show ?thesis
      using \<open>m = Return r w'\<close> Return by (auto simp: walked_def)
  next
    case (Fatal x1 x2)
    with f [OF \<open>m = Return r w'\<close>] show ?thesis by (simp add: walked_def)
  next
    case OutOfFuel
    with \<open>m = Return r w'\<close> show ?thesis by (simp add: walked_def)
  next
    case Undefined
    with f [OF \<open>m = Return r w'\<close>] show ?thesis by (simp add: walked_def)
  qed
next
  case (Fatal x1 x2)
  with m show ?thesis by (simp add: walked_def)
next
  case OutOfFuel
  then show ?thesis by (simp add: walked_def)
next
  case Undefined
  with m show ?thesis by (simp add: walked_def)
qed

lemma walked_classifyEach:
  "walks env entry \<Longrightarrow> walked env w resize (classifyEach entry ps resize w)"
proof (induction ps arbitrary: resize w)
  case Nil
  show ?case by (simp add: walked_Return_same)
next
  case (Cons p ps)
  have "walked env w (resize \<or> False)
          (bind (entry p w) (\<lambda>r w'. classifyEach entry ps (resize \<or> r) w'))"
    using Cons.prems by (intro walked_bind Cons.IH) (simp_all add: walks_def)
  then show ?case by simp
qed

lemma walked_emit_before:
  assumes out: "walked env (emit e w) (parseResult env e \<or> a) out" and e: "walkEvent e"
  shows "walked env w a out"
proof (cases out)
  case (Return r w')
  with out obtain evs where w': "w' = (emit e w)\<lparr>trace := trace (emit e w) @ evs\<rparr>"
    and evs: "list_all walkEvent evs"
    and r: "r = ((parseResult env e \<or> a) \<or> list_ex (parseResult env) evs)"
    by (auto simp: walked_def)
  have "w' = w\<lparr>trace := trace w @ (e # evs)\<rparr>"
    by (simp add: w' emit_def)
  moreover have "list_all walkEvent (e # evs)"
    using e evs by simp
  moreover have "r = (a \<or> list_ex (parseResult env) (e # evs))"
    using r by auto
  ultimately show ?thesis
    unfolding walked_def Return outcome.case by blast
qed (use out in \<open>simp_all add: walked_def\<close>)

lemma walked_emit_before_quiet:
  "walked env (emit e w) a out \<Longrightarrow> walkEvent e \<Longrightarrow> \<not> parseResult env e \<Longrightarrow>
   walked env w a out"
  using walked_emit_before [of env e w a out] by simp

lemma walked_emit_after:
  assumes e: "walkEvent e"
  shows "walked env w a (Return (a \<or> parseResult env e) (emit e w))"
  using walked_Return [of "[e]" "a \<or> parseResult env e" a env w] e by (simp add: emit_def)

lemma walked_recurseUsingOpendir:
  "walks env entry \<Longrightarrow> walked env w False (recurseUsingOpendir entry env dirName w)"
  using walked_emit_after [of "Warning (CannotRecurse dirName)" env w False]
  by (auto simp: recurseUsingOpendir_def readdir_loop_classifyEach walked_classifyEach
      error_WARNING_def split: option.splits)

lemma walked_createTagsForWildcardUsingFindfirst:
  "walks env entry \<Longrightarrow>
   walked env w False (createTagsForWildcardUsingFindfirst entry env pattern w)"
  by (simp add: createTagsForWildcardUsingFindfirst_def findfirst_loop_classifyEach
      walked_classifyEach)

lemma walked_depth:
  assumes "walked env (w\<lparr>recursionDepth := recursionDepth w + 1\<rparr>) a out"
  shows "walked env w a
           (bind out (\<lambda>resize w'. Return resize (w'\<lparr>recursionDepth := recursionDepth w' - 1\<rparr>)))"
proof (cases out)
  case (Return r w')
  let ?w = "w\<lparr>recursionDepth := recursionDepth w + 1\<rparr>"
  from assms Return obtain evs where
    w': "w' = ?w\<lparr>trace := trace ?w @ evs\<rparr>"
    and evs: "list_all walkEvent evs"
    and r: "r = (a \<or> list_ex (parseResult env) evs)"
    by (auto simp: walked_def)
  have "w'\<lparr>recursionDepth := recursionDepth w' - 1\<rparr> = w\<lparr>trace := trace w @ evs\<rparr>"
    by (simp add: w')
  with evs r show ?thesis
    unfolding Return by (simp add: walked_Return)
qed (use assms in \<open>simp_all add: walked_def\<close>)

lemma walked_verbose: "walked env w a (Return a (verbose m w))"
  using walked_emit_after [of "Verbose m" env w a] by (simp add: verbose_def)

lemma walked_error_WARNING: "walked env w a (Return a (error_WARNING m w))"
  using walked_emit_after [of "Warning m" env w a] by (simp add: error_WARNING_def)

lemma walked_after_verbose:
  "walked env (verbose m w) a out \<Longrightarrow> walked env w a out"
  using walked_emit_before_quiet [of env "Verbose m" w a out] by (simp add: verbose_def)

lemma walked_recurseIntoDirectory:
  assumes entry: "walks env entry"
  shows "walked env w False (recurseIntoDirectory entry env dirName w)"
proof -
  let ?w = "w\<lparr>recursionDepth := recursionDepth w + 1\<rparr>"
  let ?w1 = "verbose (Recursing dirName) ?w"
  have iter: "walked env ?w False
     (case dirIter env of
        HAVE_OPENDIR \<Rightarrow> recurseUsingOpendir entry env dirName ?w1
      | HAVE_FINDFIRST \<Rightarrow>
          createTagsForWildcardUsingFindfirst entry env
            (dirName @ [OUTPUT_PATH_SEPARATOR env] @ ''*.*'') ?w1
      | NO_DIRECTORY_ITERATION \<Rightarrow> Return False ?w1)"
  proof (rule walked_after_verbose [of _ "Recursing dirName"], cases "dirIter env")
    case HAVE_OPENDIR
    then show "walked env ?w1 False
     (case dirIter env of
        HAVE_OPENDIR \<Rightarrow> recurseUsingOpendir entry env dirName ?w1
      | HAVE_FINDFIRST \<Rightarrow>
          createTagsForWildcardUsingFindfirst entry env
            (dirName @ [OUTPUT_PATH_SEPARATOR env] @ ''*.*'') ?w1
      | NO_DIRECTORY_ITERATION \<Rightarrow> Return False ?w1)"
      using walked_recurseUsingOpendir [OF entry] by simp
  next
    case HAVE_FINDFIRST
    then show "walked env ?w1 False
     (case dirIter env of
        HAVE_OPENDIR \<Rightarrow> recurseUsingOpendir entry env dirName ?w1
      | HAVE_FINDFIRST \<Rightarrow>
          createTagsForWildcardUsingFindfirst entry env
            (dirName @ [OUTPUT_PATH_SEPARATOR env] @ ''*.*'') ?w1
      | NO_DIRECTORY_ITERATION \<Rightarrow> Return False ?w1)"
      using walked_createTagsForWildcardUsingFindfirst [OF entry] by simp
  next
    case NO_DIRECTORY_ITERATION
    then show "walked env ?w1 False
     (case dirIter env of
        HAVE_OPENDIR \<Rightarrow> recurseUsingOpendir entry env dirName ?w1
      | HAVE_FINDFIRST \<Rightarrow>
          createTagsForWildcardUsingFindfirst entry env
            (dirName @ [OUTPUT_PATH_SEPARATOR env] @ ''*.*'') ?w1
      | NO_DIRECTORY_ITERATION \<Rightarrow> Return False ?w1)"
      by (simp add: walked_Return_same)
  qed
  show ?thesis
    unfolding recurseIntoDirectory_def Let_def
    by (rule walked_depth) (simp only: walked_verbose iter if_split [where P = "walked env ?w False"] simp_thms)
qed


lemma createTagsForEntry_Suc:
  "createTagsForEntry (Suc fuel) env p w =
     (case classify env (Option w) p of
        Excluded \<Rightarrow> Return False (emits [EStat p, Verbose (Excluding p)] w)
      | SymbolicLinkSkipped \<Rightarrow>
          Return False (emits [EStat p, Verbose (IgnoringSymbolicLink p)] w)
      | Missing \<Rightarrow> Return False (emits [EStat p, Warning (CannotOpenInputFile p)] w)
      | Directory \<Rightarrow>
          recurseIntoDirectory (createTagsForEntry fuel env) env p (emits [EStat p] w)
      | SpecialFile \<Rightarrow> Return False (emits [EStat p, Verbose (IgnoringSpecialFile p)] w)
      | RegularFile \<Rightarrow> Return (parseFile env p) (emits [EStat p, ParseFile p] w))"
  by (simp add: classify_def emits_def emit_def verbose_def error_WARNING_def Let_def)

lemma walked_emits_after_same:
  "list_all walkEvent evs \<Longrightarrow> \<not> list_ex (parseResult env) evs \<Longrightarrow>
   walked env w a (Return a (emits evs w))"
  using walked_Return [of evs a a env w] by (simp add: emits_def)

lemma walks_createTagsForEntry: "walks env (createTagsForEntry fuel env)"
proof (induction fuel)
  case 0
  show ?case by (simp add: walks_def walked_def)
next
  case (Suc fuel)
  show ?case
    unfolding walks_def
  proof (intro allI)
    fix p w
    have stat: "emits [EStat p] w = emit (EStat p) w"
      by (simp add: emits_def emit_def)
    show "walked env w False (createTagsForEntry (Suc fuel) env p w)"
    proof (cases "classify env (Option w) p")
      case Directory
      have "walked env (emit (EStat p) w) False
          (recurseIntoDirectory (createTagsForEntry fuel env) env p (emit (EStat p) w))"
        using Suc.IH by (rule walked_recurseIntoDirectory)
      then have "walked env w False
          (recurseIntoDirectory (createTagsForEntry fuel env) env p (emit (EStat p) w))"
        by (rule walked_emit_before_quiet [of _ "EStat p"]) simp_all
      with Directory show ?thesis
        by (simp add: createTagsForEntry_Suc stat del: createTagsForEntry.simps)
    next
      case RegularFile
      have "walked env w False (Return (parseFile env p) (emits [EStat p, ParseFile p] w))"
        using walked_Return [of "[EStat p, ParseFile p]" "parseFile env p" False env w]
        by (simp add: emits_def)
      with RegularFile show ?thesis
        by (simp add: createTagsForEntry_Suc del: createTagsForEntry.simps)
    qed (simp_all add: createTagsForEntry_Suc walked_emits_after_same
          del: createTagsForEntry.simps)
  qed
qed

lemma children_of_dots: "set entries \<subseteq> {''.'', ''..''} \<Longrightarrow> children entries = []"
  by (induction entries) (auto simp: children_def)

text \<open>
  C8. Whichever way a directory is expanded, by \<open>opendir\<close>/\<open>readdir\<close> or by the
  \<open>findfirst\<close>/\<open>findnext\<close> fallback, the paths handed to the classifier are built from
  the child set of the names the iteration yields, and neither \<open>.\<close> nor \<open>..\<close> is in a
  child set. A directory that yields nothing but \<open>.\<close> and \<open>..\<close> has no child
  classified: the expansion returns at once, with the state as it was.
\<close>

theorem dot_entries_never_classified:
  "(readdir env dirName = Some entries \<longrightarrow>
      recurseUsingOpendir entry env dirName w =
        classifyEach entry
          (map (\<lambda>n. if dirName = ''.'' then n else combinePathAndFile env dirName n)
             (children entries)) False w) \<and>
   (findfirst env pattern = names \<longrightarrow>
      createTagsForWildcardUsingFindfirst entry env pattern w =
        classifyEach entry
          (map (\<lambda>n. take (baseFilename env pattern) pattern @ n) (children names)) False w) \<and>
   ''.'' \<notin> set (children entries) \<and> ''..'' \<notin> set (children entries) \<and>
   ''.'' \<notin> set (children names) \<and> ''..'' \<notin> set (children names) \<and>
   (readdir env dirName = Some entries \<and> set entries \<subseteq> {''.'', ''..''} \<longrightarrow>
      recurseUsingOpendir entry env dirName w = Return False w) \<and>
   (findfirst env pattern = names \<and> set names \<subseteq> {''.'', ''..''} \<longrightarrow>
      createTagsForWildcardUsingFindfirst entry env pattern w = Return False w)"
proof -
  have opendir: "recurseUsingOpendir entry env dirName w =
        classifyEach entry
          (map (\<lambda>n. if dirName = ''.'' then n else combinePathAndFile env dirName n)
             (children entries)) False w"
    if "readdir env dirName = Some entries"
    using that by (simp add: recurseUsingOpendir_def readdir_loop_classifyEach)
  have wildcard: "createTagsForWildcardUsingFindfirst entry env pattern w =
        classifyEach entry
          (map (\<lambda>n. take (baseFilename env pattern) pattern @ n) (children names)) False w"
    if "findfirst env pattern = names"
    using that by (simp add: createTagsForWildcardUsingFindfirst_def findfirst_loop_classifyEach)
  have dots: "''.'' \<notin> set (children xs) \<and> ''..'' \<notin> set (children xs)" for xs
    by (simp add: children_def)
  show ?thesis
    using opendir wildcard dots [of entries] dots [of names]
    by (auto simp: children_of_dots)
qed

theorem dot_entries_never_classified_witness:
  "readdir demoEnv ''d'' = Some [''.'', ''..'', ''a.c''] \<and>
   recurseUsingOpendir (createTagsForEntry 1 demoEnv) demoEnv ''d'' demoWorld =
     classifyEach (createTagsForEntry 1 demoEnv) [''d/a.c''] False demoWorld \<and>
   findfirst demoEnv ''d/*.*'' = [''.'', ''..'', ''a.c''] \<and>
   createTagsForWildcardUsingFindfirst (createTagsForEntry 1 demoEnv) demoEnv ''d/*.*'' demoWorld =
     classifyEach (createTagsForEntry 1 demoEnv) [''d/a.c''] False demoWorld \<and>
   readdir demoEnv ''empty'' = Some [''.'', ''..''] \<and>
   recurseUsingOpendir (createTagsForEntry 1 demoEnv) demoEnv ''empty'' demoWorld =
     Return False demoWorld"
  using dot_entries_never_classified [of demoEnv "''d''" "[''.'', ''..'', ''a.c'']"
      "createTagsForEntry 1 demoEnv" demoWorld "''d/*.*''" "[''.'', ''..'', ''a.c'']"]
    dot_entries_never_classified [of demoEnv "''empty''" "[''.'', ''..'']"
      "createTagsForEntry 1 demoEnv" demoWorld "''d/*.*''" "[''.'', ''..'', ''a.c'']"]
  by (simp add: demoEnv_def children_def)

text \<open>
  C9. Expanding the directory named exactly \<open>.\<close> hands each child to the classifier
  under its bare name; expanding any other directory hands each child over under the
  result of \<open>combinePathAndFile\<close> on the directory name and the child's name, the
  helper of the module that joins the two by the path separator.
\<close>

theorem children_dispatched_by_directory_name:
  assumes "readdir env dirName = Some entries"
  shows "recurseUsingOpendir entry env dirName w =
     classifyEach entry
       (if dirName = ''.'' then children entries
        else map (combinePathAndFile env dirName) (children entries)) False w"
  using assms by (simp add: recurseUsingOpendir_def readdir_loop_classifyEach)

theorem children_dispatched_by_directory_name_witness:
  "readdir demoEnv ''.'' = Some [''.'', ''..'', ''b.c'', ''d''] \<and>
   recurseUsingOpendir (createTagsForEntry 2 demoEnv) demoEnv ''.'' demoWorld =
     classifyEach (createTagsForEntry 2 demoEnv) [''b.c'', ''d''] False demoWorld \<and>
   readdir demoEnv ''d'' = Some [''.'', ''..'', ''a.c''] \<and>
   recurseUsingOpendir (createTagsForEntry 2 demoEnv) demoEnv ''d'' demoWorld =
     classifyEach (createTagsForEntry 2 demoEnv) [''d/a.c''] False demoWorld"
  using children_dispatched_by_directory_name [of demoEnv "''.''" "[''.'', ''..'', ''b.c'', ''d'']"
      "createTagsForEntry 2 demoEnv" demoWorld]
    children_dispatched_by_directory_name [of demoEnv "''d''" "[''.'', ''..'', ''a.c'']"
      "createTagsForEntry 2 demoEnv" demoWorld]
  by (simp add: demoEnv_def children_def)

section \<open>The entry classifier\<close>

text \<open>
  C3, as amended. For every path and every positive fuel, the classifier queries the
  status once and takes exactly the branch of the first-match order: excluded, symbolic
  link not followed, missing (a warning), directory (handed to \<open>recurseIntoDirectory\<close>
  after the one status query), special file, regular file (handed to \<open>parseFile\<close>).
  The excluded, symbolic-link, missing and special-file branches return \<open>False\<close>; the
  directory branch returns what \<open>recurseIntoDirectory\<close> returns, and the regular-file
  branch what \<open>parseFile\<close> returns.
\<close>

theorem createTagsForEntry_first_match:
  "createTagsForEntry (Suc fuel) env p w =
     (case classify env (Option w) p of
        Excluded \<Rightarrow> Return False (emits [EStat p, Verbose (Excluding p)] w)
      | SymbolicLinkSkipped \<Rightarrow>
          Return False (emits [EStat p, Verbose (IgnoringSymbolicLink p)] w)
      | Missing \<Rightarrow> Return False (emits [EStat p, Warning (CannotOpenInputFile p)] w)
      | Directory \<Rightarrow>
          recurseIntoDirectory (createTagsForEntry fuel env) env p (emits [EStat p] w)
      | SpecialFile \<Rightarrow> Return False (emits [EStat p, Verbose (IgnoringSpecialFile p)] w)
      | RegularFile \<Rightarrow> Return (parseFile env p) (emits [EStat p, ParseFile p] w))"
  by (rule createTagsForEntry_Suc)

theorem createTagsForEntry_first_match_witness:
  "classify demoEnv (Option demoWorld) ''a.c'' = RegularFile \<and>
   createTagsForEntry 1 demoEnv ''a.c'' demoWorld =
     Return True (demoWorld\<lparr>trace := [EStat ''a.c'', ParseFile ''a.c'']\<rparr>) \<and>
   classify demoEnv (Option demoWorld) ''nowhere'' = Missing \<and>
   createTagsForEntry 1 demoEnv ''nowhere'' demoWorld =
     Return False
       (demoWorld\<lparr>trace := [EStat ''nowhere'', Warning (CannotOpenInputFile ''nowhere'')]\<rparr>)"
  using createTagsForEntry_first_match [of 0 demoEnv "''a.c''" demoWorld]
    createTagsForEntry_first_match [of 0 demoEnv "''nowhere''" demoWorld]
  by (simp add: demoEnv_def demoStat_def demoOptions_def demoWorld_def classify_def emits_def
      emit_def verbose_def error_WARNING_def Let_def)

text \<open>
  The claim as stated also gives the directory branch the result \<open>False\<close>. The
  directory \<open>d\<close> holds \<open>a.c\<close>, whose parse asks for a resize: the classifier takes the
  directory branch at \<open>d\<close> and returns \<open>True\<close>.
\<close>

theorem createTagsForEntry_directory_returns_true:
  "\<not> isExcludedFile demoEnv ''d'' \<and>
   \<not> (isSymbolicLink (eStat demoEnv ''d'') \<and> \<not> followLinks (Option demoWorld)) \<and>
   exists (eStat demoEnv ''d'') \<and> isDirectory (eStat demoEnv ''d'') \<and>
   classify demoEnv (Option demoWorld) ''d'' = Directory \<and>
   createTagsForEntry 2 demoEnv ''d'' demoWorld =
     Return True
       (demoWorld\<lparr>trace :=
          [EStat ''d'', Verbose (Recursing ''d''), EStat ''d/a.c'', ParseFile ''d/a.c'']\<rparr>)"
  by code_simp

section \<open>The recursion counter\<close>

lemma recurseIntoDirectory_refusal:
  assumes "isRecursiveLink env dirName \<or> \<not> recurse (Option w) \<or>
           maxRecursionDepth (Option w) < recursionDepth w + 1"
  shows "recurseIntoDirectory entry env dirName w =
     Return False
       (emits
          [Verbose
             (if isRecursiveLink env dirName then IgnoringRecursiveLink dirName
              else if \<not> recurse (Option w) then IgnoringDirectory dirName
              else NotDescending dirName (recursionDepth w + 1) (maxRecursionDepth (Option w)))]
          w)"
  using assms
  by (auto simp: recurseIntoDirectory_def Let_def emits_def emit_def verbose_def)

lemma createTagsForEntry_restores_depth:
  assumes "recurseIntoDirectory (createTagsForEntry fuel env) env dirName w = Return r w'"
  shows "recursionDepth w' = recursionDepth w"
proof -
  have "walked env w False (recurseIntoDirectory (createTagsForEntry fuel env) env dirName w)"
    using walks_createTagsForEntry by (rule walked_recurseIntoDirectory)
  with assms obtain evs where "w' = w\<lparr>trace := trace w @ evs\<rparr>"
    by (auto simp: walked_def)
  then show ?thesis by simp
qed

text \<open>
  C2, as amended. When entering a directory would raise the counter above the configured
  maximum, \<open>recurseIntoDirectory\<close> does not descend: whatever the classifier is, it is
  not called, the result is \<open>False\<close>, and the state on return is the state before the
  call with one diagnostic added, so the counter has its old value. The diagnostic is the
  depth-exceeded one when the directory is not a recursive link and recursion is enabled;
  a recursive link and disabled recursion are tested first and give their own
  diagnostics. On every call that returns, refused or not, the counter has the value it
  had before the call, and it is never negative.
\<close>

theorem recurseIntoDirectory_depth_balanced:
  "(maxRecursionDepth (Option w) < recursionDepth w + 1 \<longrightarrow>
      recurseIntoDirectory entry env dirName w =
        Return False
          (emits
             [Verbose
                (if isRecursiveLink env dirName then IgnoringRecursiveLink dirName
                 else if \<not> recurse (Option w) then IgnoringDirectory dirName
                 else NotDescending dirName (recursionDepth w + 1)
                        (maxRecursionDepth (Option w)))]
             w)) \<and>
   (recurseIntoDirectory (createTagsForEntry fuel env) env dirName w = Return r w' \<longrightarrow>
      recursionDepth w' = recursionDepth w \<and> 0 \<le> uint (recursionDepth w'))"
  using recurseIntoDirectory_refusal [of env dirName w entry]
    createTagsForEntry_restores_depth [of fuel env dirName w r w']
  by simp

theorem recurseIntoDirectory_depth_balanced_witness:
  "maxRecursionDepth (Option (demoWorld\<lparr>Option := demoOptions\<lparr>maxRecursionDepth := 0\<rparr>\<rparr>))
     < recursionDepth (demoWorld\<lparr>Option := demoOptions\<lparr>maxRecursionDepth := 0\<rparr>\<rparr>) + 1 \<and>
   recurseIntoDirectory (createTagsForEntry 1 demoEnv) demoEnv ''d''
       (demoWorld\<lparr>Option := demoOptions\<lparr>maxRecursionDepth := 0\<rparr>\<rparr>) =
     Return False
       (demoWorld\<lparr>Option := demoOptions\<lparr>maxRecursionDepth := 0\<rparr>,
                  trace := [Verbose (NotDescending ''d'' 1 0)]\<rparr>) \<and>
   recurseIntoDirectory (createTagsForEntry 1 demoEnv) demoEnv ''d'' demoWorld =
     Return True
       (demoWorld\<lparr>trace := [Verbose (Recursing ''d''), EStat ''d/a.c'', ParseFile ''d/a.c'']\<rparr>) \<and>
   recursionDepth
       (demoWorld\<lparr>trace := [Verbose (Recursing ''d''), EStat ''d/a.c'', ParseFile ''d/a.c'']\<rparr>) =
     recursionDepth demoWorld"
  using recurseIntoDirectory_depth_balanced
      [of "demoWorld\<lparr>Option := demoOptions\<lparr>maxRecursionDepth := 0\<rparr>\<rparr>"
        "createTagsForEntry 1 demoEnv" demoEnv "''d''" 1 True
        "demoWorld\<lparr>trace := [Verbose (Recursing ''d''), EStat ''d/a.c'', ParseFile ''d/a.c'']\<rparr>"]
    recurseIntoDirectory_depth_balanced
      [of demoWorld "createTagsForEntry 1 demoEnv" demoEnv "''d''" 1 True
        "demoWorld\<lparr>trace := [Verbose (Recursing ''d''), EStat ''d/a.c'', ParseFile ''d/a.c'']\<rparr>"]
  by (simp add: demoEnv_def demoStat_def demoOptions_def demoWorld_def recurseIntoDirectory_def
      recurseUsingOpendir_def emits_def emit_def verbose_def error_WARNING_def Let_def strcmp_def)

text \<open>
  The claim as stated promises the depth-exceeded diagnostic for every such directory.
  With recursion disabled and the maximum depth 0, entering \<open>d\<close> raises the counter to
  1, above the maximum, and the diagnostic is the one for an ignored directory.
\<close>

theorem recurseIntoDirectory_other_diagnostic:
  "maxRecursionDepth (Option (demoWorld\<lparr>Option := demoOptions\<lparr>recurse := False, maxRecursionDepth := 0\<rparr>\<rparr>))
     < recursionDepth (demoWorld\<lparr>Option := demoOptions\<lparr>recurse := False, maxRecursionDepth := 0\<rparr>\<rparr>) + 1 \<and>
   recurseIntoDirectory (createTagsForEntry 1 demoEnv) demoEnv ''d''
       (demoWorld\<lparr>Option := demoOptions\<lparr>recurse := False, maxRecursionDepth := 0\<rparr>\<rparr>) =
     Return False
       (demoWorld\<lparr>Option := demoOptions\<lparr>recurse := False, maxRecursionDepth := 0\<rparr>,
                  trace := [Verbose (IgnoringDirectory ''d'')]\<rparr>) \<and>
   Verbose (NotDescending ''d'' 1 0) \<notin> set [Verbose (IgnoringDirectory ''d'')]"
  by (simp add: demoEnv_def demoOptions_def demoWorld_def recurseIntoDirectory_def emit_def
      verbose_def Let_def)

section \<open>The interactive loop\<close>

lemma fgets_chars_newline_first:
  "fgets_chars (Suc n) s = (c # line, rest) \<Longrightarrow> c = CHR 0x0A \<Longrightarrow> line = []"
  by (cases s) (auto split: if_splits prod.splits)

lemma fgets_blank_line:
  assumes "fgets 1024 s = Some (buffer, rest)"
  shows "(case buffer of [] \<Rightarrow> False | c # cs \<Rightarrow> c = CHR 0x0A) = (buffer = [CHR 0x0A])"
proof (cases buffer)
  case Nil
  then show ?thesis by simp
next
  case (Cons c line)
  from assms have "fgets_chars (Suc 1022) s = (c # line, rest)"
    by (simp add: fgets_def Cons split: if_splits)
  then have "c = CHR 0x0A \<Longrightarrow> line = []"
    by (rule fgets_chars_newline_first)
  with Cons show ?thesis by auto
qed




text \<open>
  C6. When the loop reads a line that is not blank and does not parse as JSON, the run
  ends there with the fatal error \<open>invalid json\<close>: the outcome of the whole loop is
  \<open>Fatal\<close>, whatever input follows the line, and the iteration has added no action, so
  no completed line is written for it.
\<close>

theorem invalid_json_is_fatal:
  assumes line: "fgets 1024 (stdin w) = Some (buffer, rest)"
    and nonblank: "buffer \<noteq> [CHR 0x0A]"
    and bad: "json_loads env buffer = None"
  shows "interactiveLoop_while (Suc fuel) env w = Fatal InvalidJson (w\<lparr>stdin := rest\<rparr>) \<and>
     trace (w\<lparr>stdin := rest\<rparr>) = trace w"
proof -
  have blank: "\<not> (case buffer of [] \<Rightarrow> False | c # cs \<Rightarrow> c = CHR 0x0A)"
    using fgets_blank_line [OF line] nonblank by simp
  have "interactiveRequest (createTagsForEntry fuel env) env buffer (w\<lparr>stdin := rest\<rparr>) =
     Fatal InvalidJson (w\<lparr>stdin := rest\<rparr>)"
    using bad by (simp add: interactiveRequest_def error_FATAL_def)
  with line blank show ?thesis
    by (simp add: Let_def)
qed

theorem invalid_json_is_fatal_witness:
  "fgets 1024 (stdin (demoWorld\<lparr>stdin := ''not json'' @ [CHR 0x0A] @ demoRequestLine\<rparr>)) =
     Some (''not json'' @ [CHR 0x0A], demoRequestLine) \<and>
   ''not json'' @ [CHR 0x0A] \<noteq> [CHR 0x0A] \<and>
   json_loads demoEnv (''not json'' @ [CHR 0x0A]) = None \<and>
   interactiveLoop_while (Suc 0) demoEnv
       (demoWorld\<lparr>stdin := ''not json'' @ [CHR 0x0A] @ demoRequestLine\<rparr>) =
     Fatal InvalidJson (demoWorld\<lparr>stdin := demoRequestLine\<rparr>) \<and>
   trace (demoWorld\<lparr>stdin := demoRequestLine\<rparr>) = []"
proof -
  let ?W = "demoWorld\<lparr>stdin := ''not json'' @ [CHR 0x0A] @ demoRequestLine\<rparr>"
  have h1: "fgets 1024 (stdin ?W) = Some (''not json'' @ [CHR 0x0A], demoRequestLine)"
    by code_simp
  have h2: "''not json'' @ [CHR 0x0A] \<noteq> [CHR 0x0A]"
    by simp
  have h3: "json_loads demoEnv (''not json'' @ [CHR 0x0A]) = None"
    by (simp add: demoEnv_def demoRequestLine_def)
  from invalid_json_is_fatal [OF h1 h2 h3, of 0] h1 h2 h3 show ?thesis
    by (simp add: demoWorld_def)
qed

section \<open>The batch loop\<close>

text \<open>
  C7. With no argument left, no list file and filter mode off: if files are required the
  batch loop ends with the fatal error \<open>No files specified\<close>; if they are not
  required and neither recursion nor an etags include is active it returns with the
  state untouched, the tag file not opened; and if they are not required and recursion
  is enabled it opens the tag file (unless only the language is printed) and recurses
  into the directory \<open>.\<close>, whose result goes to \<open>closeTagFile\<close>.
\<close>

theorem batch_without_file_sources:
  assumes "cArgOff args" and "fileList (Option w) = None" and "\<not> filter_opt (Option w)"
  shows
    "(filesRequired env (Option w) \<longrightarrow>
        batchMakeTags fuel env args w = Fatal NoFilesSpecified w) \<and>
     (\<not> filesRequired env (Option w) \<and> \<not> recurse (Option w) \<and> \<not> etagsInclude (Option w) \<longrightarrow>
        batchMakeTags fuel env args w = Return () w) \<and>
     (\<not> filesRequired env (Option w) \<and> recurse (Option w) \<longrightarrow>
        batchMakeTags fuel env args w =
          bind (recurseIntoDirectory (createTagsForEntry fuel env) env ''.''
                  (if printLanguage (Option w) then w else emit OpenTagFile w))
            (\<lambda>resize w5.
               Return ()
                 (let w6 = (if \<not> filter_opt (Option w5) \<and> \<not> printLanguage (Option w5)
                            then emit (CloseTagFile resize) w5 else w5)
                  in if printTotals (Option w6) then emit PrintTotals w6 else w6)))"
  using assms
  by (auto simp: batchMakeTags_def error_FATAL_def Let_def emit_def)

theorem batch_without_file_sources_witness:
  "cArgOff [] \<and> fileList (Option demoWorld) = None \<and> \<not> filter_opt (Option demoWorld) \<and>
   filesRequired (demoEnv\<lparr>filesRequired := \<lambda>opts. True\<rparr>) (Option demoWorld) \<and>
   batchMakeTags (Suc 0) (demoEnv\<lparr>filesRequired := \<lambda>opts. True\<rparr>) [] demoWorld =
     Fatal NoFilesSpecified demoWorld \<and>
   fileList (Option (demoWorld\<lparr>Option := demoOptions\<lparr>recurse := False\<rparr>\<rparr>)) = None \<and>
   \<not> filter_opt (Option (demoWorld\<lparr>Option := demoOptions\<lparr>recurse := False\<rparr>\<rparr>)) \<and>
   \<not> filesRequired (demoEnv\<lparr>filesRequired := \<lambda>opts. False\<rparr>)
       (Option (demoWorld\<lparr>Option := demoOptions\<lparr>recurse := False\<rparr>\<rparr>)) \<and>
   \<not> recurse (Option (demoWorld\<lparr>Option := demoOptions\<lparr>recurse := False\<rparr>\<rparr>)) \<and>
   \<not> etagsInclude (Option (demoWorld\<lparr>Option := demoOptions\<lparr>recurse := False\<rparr>\<rparr>)) \<and>
   batchMakeTags (Suc 0) (demoEnv\<lparr>filesRequired := \<lambda>opts. False\<rparr>) []
       (demoWorld\<lparr>Option := demoOptions\<lparr>recurse := False\<rparr>\<rparr>) =
     Return () (demoWorld\<lparr>Option := demoOptions\<lparr>recurse := False\<rparr>\<rparr>) \<and>
   \<not> filesRequired demoEnv (Option demoWorld) \<and> recurse (Option demoWorld) \<and>
   batchMakeTags (Suc (Suc (Suc 0))) demoEnv [] demoWorld =
     Return ()
       (demoWorld\<lparr>trace :=
          [OpenTagFile, Verbose (Recursing ''.''), EStat ''b.c'', ParseFile ''b.c'',
           EStat ''d'', Verbose (Recursing ''d''), EStat ''d/a.c'', ParseFile ''d/a.c'',
           CloseTagFile True]\<rparr>)"
  using batch_without_file_sources
      [of "[]" demoWorld "demoEnv\<lparr>filesRequired := \<lambda>opts. True\<rparr>" "Suc 0"]
    batch_without_file_sources
      [of "[]" "demoWorld\<lparr>Option := demoOptions\<lparr>recurse := False\<rparr>\<rparr>"
        "demoEnv\<lparr>filesRequired := \<lambda>opts. False\<rparr>" "Suc 0"]
    batch_without_file_sources [of "[]" demoWorld demoEnv "Suc (Suc (Suc 0))"]
  by (simp add: demoEnv_def demoStat_def demoOptions_def demoWorld_def cArgOff_def
      etagsInclude_def recurseIntoDirectory_def recurseUsingOpendir_def emit_def verbose_def
      error_WARNING_def Let_def strcmp_def)

section \<open>Sources of entries and the resize flag\<close>

lemma filterOutput_parseOptions:
  "filterOutput env filter_p toks opts =
     (case parseOptions env toks opts of (args', opts') \<Rightarrow> loopOutput env filter_p args' opts')"
  by (induction toks arbitrary: opts) (simp_all add: loopOutput_def)

lemma walkEvent_not_stdout: "walkEvent e \<Longrightarrow> \<not> stdoutEvent e"
  by (cases e) simp_all

lemma stdoutEvents_walk: "list_all walkEvent evs \<Longrightarrow> stdoutEvents evs = []"
  by (induction evs) (auto simp: stdoutEvents_def walkEvent_not_stdout)

lemma stdoutEvents_entryOutput: "stdoutEvents (entryOutput filter_p opts) = entryOutput filter_p opts"
  by (simp add: stdoutEvents_def entryOutput_def split: option.splits)

lemma emit_entryOutput:
  "(if filter_p then
      emit Fflush
        (case filterTerminator (Option w1) of None \<Rightarrow> w1 | Some t \<Rightarrow> emit (Fputs (Text t)) w1)
    else w1) = emits (entryOutput filter_p (Option w1)) w1"
  by (simp add: emits_def emit_def entryOutput_def split: option.splits)

lemma bind_eq_Return:
  "bind m f = Return b w' \<longleftrightarrow> (\<exists>a w1. m = Return a w1 \<and> f a w1 = Return b w')"
  by (cases m) simp_all

lemma createTagsFromFileInput_loop_Nil:
  "createTagsFromFileInput_loop entry env filter_p [] resize w = Return resize w"
  by (simp add: cArgOff_def)

lemma createTagsFromFileInput_loop_Cons:
  "createTagsFromFileInput_loop entry env filter_p (a # rest) resize w =
     bind (entry a w)
       (\<lambda>r w1. case parseCmdlineOptions env rest (emits (entryOutput filter_p (Option w1)) w1) of
                  (args', w3) \<Rightarrow>
                    createTagsFromFileInput_loop entry env filter_p args' (resize \<or> r) w3)"
  by (subst createTagsFromFileInput_loop.simps)
     (simp add: cArgOff_def cArgItem_def cArgForth_def emit_entryOutput Let_def
        del: createTagsFromFileInput_loop.simps)

declare createTagsFromFileInput_loop.simps [simp del]

lemma walks_Return:
  assumes "walks env entry" and "entry p w = Return r w1"
  obtains evs where "w1 = w\<lparr>trace := trace w @ evs\<rparr>" and "list_all walkEvent evs"
    and "r = list_ex (parseResult env) evs"
  using assms by (auto simp: walks_def walked_def dest!: spec [of _ p] spec [of _ w])

lemma createTagsFromFileInput_loop_stdout:
  assumes "walks env entry"
    and "createTagsFromFileInput_loop entry env filter_p args resize w = Return r w'"
  shows "stdoutEvents (trace w') =
           stdoutEvents (trace w) @ loopOutput env filter_p args (Option w)"
  using assms
proof (induction entry env filter_p args resize w rule: createTagsFromFileInput_loop.induct)
  case (1 entry env filter_p args resize w)
  show ?case
  proof (cases args)
    case Nil
    with "1.prems" show ?thesis
      by (simp add: createTagsFromFileInput_loop_Nil loopOutput_def)
  next
    case (Cons a rest)
    then have off: "\<not> cArgOff args" and forth: "cArgForth args = rest"
      by (simp_all add: cArgOff_def cArgForth_def)
    from "1.prems"(2) Cons obtain r1 w1 where
      entry: "entry a w = Return r1 w1"
      and rest: "(case parseCmdlineOptions env rest (emits (entryOutput filter_p (Option w1)) w1) of
                  (args', w3) \<Rightarrow>
                    createTagsFromFileInput_loop entry env filter_p args' (resize \<or> r1) w3)
                 = Return r w'"
      by (auto simp: createTagsFromFileInput_loop_Cons bind_eq_Return)
    from "1.prems"(1) entry obtain evs where
      w1: "w1 = w\<lparr>trace := trace w @ evs\<rparr>" and evs: "list_all walkEvent evs"
      by (rule walks_Return)
    let ?w2 = "emits (entryOutput filter_p (Option w1)) w1"
    obtain args' w3 where p: "parseCmdlineOptions env rest ?w2 = (args', w3)"
      by (cases "parseCmdlineOptions env rest ?w2")
    with rest have loop': "createTagsFromFileInput_loop entry env filter_p args' (resize \<or> r1) w3
        = Return r w'"
      by simp
    from p have w3: "trace w3 = trace ?w2"
      and opts: "parseOptions env rest (Option w) = (args', Option w3)"
      by (auto simp: parseCmdlineOptions_def emits_def w1 split: prod.splits)
    have "stdoutEvents (trace w') =
        stdoutEvents (trace w3) @ loopOutput env filter_p args' (Option w3)"
    proof (rule "1.IH" [OF off _ _ "1.prems"(1) loop'])
      show "?w2 = (if filter_p
          then emit Fflush
                (case filterTerminator (Option w1) of None \<Rightarrow> w1
                 | Some t \<Rightarrow> emit (Fputs (Text t)) w1)
          else w1)"
        by (simp add: emit_entryOutput)
      show "(args', w3) = parseCmdlineOptions env (cArgForth args) ?w2"
        using p forth by simp
    qed
    moreover have "stdoutEvents (trace w3) =
        stdoutEvents (trace w) @ entryOutput filter_p (Option w)"
      using evs
      by (simp add: w3 emits_def w1 stdoutEvents_def stdoutEvents_walk [unfolded stdoutEvents_def]
          stdoutEvents_entryOutput [unfolded stdoutEvents_def])
    moreover have "loopOutput env filter_p args' (Option w3) =
        filterOutput env filter_p rest (Option w)"
      using opts by (simp add: filterOutput_parseOptions)
    ultimately show ?thesis
      by (simp add: Cons loopOutput_def)
  qed
qed

lemma createTagsFromFileInput_stdout:
  assumes "walks env entry"
    and "createTagsFromFileInput entry env (Some f) filter_p w = Return r w'"
  shows "stdoutEvents (trace w') =
           stdoutEvents (trace w) @
           filterOutput env filter_p
             (cArgNewFromLineFile env (case f of Stdin \<Rightarrow> stdin w | Opened s \<Rightarrow> s)) (Option w)"
proof -
  let ?contents = "case f of Stdin \<Rightarrow> stdin w | Opened s \<Rightarrow> s"
  let ?w0 = "case f of Stdin \<Rightarrow> w\<lparr>stdin := []\<rparr> | Opened s \<Rightarrow> w"
  obtain args w1 where p: "parseCmdlineOptions env (cArgNewFromLineFile env ?contents) ?w0 = (args, w1)"
    by (cases "parseCmdlineOptions env (cArgNewFromLineFile env ?contents) ?w0")
  with assms(2) have loop:
    "createTagsFromFileInput_loop entry env filter_p args False w1 = Return r w'"
    by (cases f) (simp_all add: createTagsFromFileInput_def)
  from p have tr: "trace w1 = trace w"
    and opts: "parseOptions env (cArgNewFromLineFile env ?contents) (Option w) = (args, Option w1)"
    by (cases f; auto simp: parseCmdlineOptions_def split: prod.splits)+
  from createTagsFromFileInput_loop_stdout [OF assms(1) loop] tr opts show ?thesis
    by (simp add: filterOutput_parseOptions)
qed

lemma walkEvent_not_close: "walkEvent e \<Longrightarrow> \<not> closeEvent e"
  by (cases e) simp_all

lemma ran_ReturnI:
  "trace w' = trace w @ evs \<Longrightarrow> list_all (\<lambda>e. \<not> closeEvent e) evs \<Longrightarrow>
   r = (a \<or> list_ex (parseResult env) evs) \<Longrightarrow> ran env w a (Return r w')"
  by (auto simp: ran_def)

lemma ran_ReturnE:
  assumes "ran env w a (Return r w')"
  obtains evs where "trace w' = trace w @ evs" and "list_all (\<lambda>e. \<not> closeEvent e) evs"
    and "r = (a \<or> list_ex (parseResult env) evs)"
  using assms by (auto simp: ran_def)

lemma ran_of_walked: "walked env w a out \<Longrightarrow> ran env w a out"
  by (cases out) (auto simp: walked_def ran_def list_all_iff walkEvent_not_close)

lemma ran_same_trace: "trace w' = trace w \<Longrightarrow> ran env w a (Return a w')"
  by (rule ran_ReturnI [of _ _ "[]"]) simp_all

lemma ran_bind:
  assumes m: "ran env w a m"
    and f: "\<And>r w1. m = Return r w1 \<Longrightarrow> ran env w1 (b \<or> r) (f r w1)"
  shows "ran env w (b \<or> a) (bind m f)"
proof (cases m)
  case (Return r w1)
  with m obtain evs1 where t1: "trace w1 = trace w @ evs1"
    and c1: "list_all (\<lambda>e. \<not> closeEvent e) evs1"
    and r: "r = (a \<or> list_ex (parseResult env) evs1)"
    by (auto elim: ran_ReturnE)
  show ?thesis
  proof (cases "f r w1")
    case Return2: (Return r2 w2)
    with f [OF Return] obtain evs2 where t2: "trace w2 = trace w1 @ evs2"
      and c2: "list_all (\<lambda>e. \<not> closeEvent e) evs2"
      and r2: "r2 = ((b \<or> r) \<or> list_ex (parseResult env) evs2)"
      by (auto elim: ran_ReturnE)
    have "ran env w (b \<or> a) (Return r2 w2)"
      by (rule ran_ReturnI [of _ _ "evs1 @ evs2"]) (use t1 t2 c1 c2 r r2 in auto)
    with Return Return2 show ?thesis by simp
  qed (simp_all add: Return ran_def)
qed (simp_all add: ran_def)

lemma ran_or:
  assumes "ran env w False m"
  shows "ran env w a (bind m (\<lambda>r w'. Return (r \<or> a) w'))"
proof -
  have "ran env w (a \<or> False) (bind m (\<lambda>r w'. Return (r \<or> a) w'))"
  proof (rule ran_bind [OF assms])
    fix r w1
    show "ran env w1 (a \<or> r) (Return (r \<or> a) w1)"
      by (rule ran_ReturnI [of _ _ "[]"]) auto
  qed
  then show ?thesis by simp
qed

lemma ran_after_emit:
  assumes "ran env (emit e w) a out" and "\<not> closeEvent e" and "\<not> parseResult env e"
  shows "ran env w a out"
proof (cases out)
  case (Return r w')
  with assms(1) obtain evs where "trace w' = trace (emit e w) @ evs"
    and "list_all (\<lambda>e. \<not> closeEvent e) evs" and "r = (a \<or> list_ex (parseResult env) evs)"
    by (auto elim: ran_ReturnE)
  with assms(2,3) have "ran env w a (Return r w')"
    by (intro ran_ReturnI [of _ _ "e # evs"]) (simp_all add: emit_def)
  with Return show ?thesis by simp
qed (simp_all add: ran_def)

lemma walked_createTagsForWildcardArg:
  "walks env entry \<Longrightarrow> walked env w False (createTagsForWildcardArg entry env arg w)"
  by (simp add: createTagsForWildcardArg_def walked_createTagsForWildcardUsingFindfirst
      walked_Return_same Let_def split: dirIteration.splits)

lemma createTagsForArgs_loop_Nil:
  "createTagsForArgs_loop entry env [] resize w = Return resize w"
  by (simp add: cArgOff_def)

lemma createTagsForArgs_loop_Cons:
  "createTagsForArgs_loop entry env (a # rest) resize w =
     bind (if MANUAL_GLOBBING env then createTagsForWildcardArg entry env a w else entry a w)
       (\<lambda>r w1. case parseCmdlineOptions env rest w1 of
                  (args', w2) \<Rightarrow> createTagsForArgs_loop entry env args' (resize \<or> r) w2)"
  by (subst createTagsForArgs_loop.simps)
     (simp add: cArgOff_def cArgItem_def cArgForth_def Let_def
        del: createTagsForArgs_loop.simps)

declare createTagsForArgs_loop.simps [simp del]

lemma trace_parseCmdlineOptions:
  "parseCmdlineOptions env args w = (args', w') \<Longrightarrow> trace w' = trace w"
  by (auto simp: parseCmdlineOptions_def split: prod.splits)

lemma ran_createTagsForArgs_loop:
  assumes "walks env entry"
  shows "ran env w resize (createTagsForArgs_loop entry env args resize w)"
  using assms
proof (induction entry env args resize w rule: createTagsForArgs_loop.induct)
  case (1 entry env args resize w)
  show ?case
  proof (cases args)
    case Nil
    then show ?thesis
      by (simp add: createTagsForArgs_loop_Nil ran_same_trace)
  next
    case (Cons a rest)
    then have off: "\<not> cArgOff args" and forth: "cArgForth args = rest"
      by (simp_all add: cArgOff_def cArgForth_def)
    let ?step = "if MANUAL_GLOBBING env then createTagsForWildcardArg entry env a w else entry a w"
    have step: "ran env w False ?step"
      using "1.prems" by (auto intro!: ran_of_walked walked_createTagsForWildcardArg simp: walks_def)
    have "ran env w (resize \<or> False)
       (bind ?step
         (\<lambda>r w1. case parseCmdlineOptions env rest w1 of
                  (args', w2) \<Rightarrow> createTagsForArgs_loop entry env args' (resize \<or> r) w2))"
    proof (rule ran_bind [OF step])
      fix r w1
      obtain args' w2 where p: "parseCmdlineOptions env rest w1 = (args', w2)"
        by (cases "parseCmdlineOptions env rest w1")
      have "ran env w2 (resize \<or> r) (createTagsForArgs_loop entry env args' (resize \<or> r) w2)"
      proof (rule "1.IH")
        show "\<not> cArgOff args" by (rule off)
        show "cArgItem args = cArgItem args" by (rule refl)
        show "(args', w2) = parseCmdlineOptions env (cArgForth args) w1" by (simp add: p forth)
        show "walks env entry" by (rule "1.prems")
      qed
      then have "ran env w1 (resize \<or> r) (createTagsForArgs_loop entry env args' (resize \<or> r) w2)"
        using trace_parseCmdlineOptions [OF p] by (cases "createTagsForArgs_loop entry env args' (resize \<or> r) w2") (auto simp: ran_def)
      then show "ran env w1 (resize \<or> r)
         (case parseCmdlineOptions env rest w1 of
            (args', w2) \<Rightarrow> createTagsForArgs_loop entry env args' (resize \<or> r) w2)"
        by (simp add: p)
    qed
    then show ?thesis
      by (simp add: Cons createTagsForArgs_loop_Cons)
  qed
qed

lemma ran_transport:
  "ran env w1 a out \<Longrightarrow> trace w1 = trace w \<Longrightarrow> ran env w a out"
  by (cases out) (auto simp: ran_def)

lemma ran_after_emits:
  assumes "ran env (emits evs0 w) a out" and "list_all (\<lambda>e. \<not> closeEvent e) evs0"
    and "\<not> list_ex (parseResult env) evs0"
  shows "ran env w a out"
proof (cases out)
  case (Return r w')
  with assms(1) obtain evs where "trace w' = trace (emits evs0 w) @ evs"
    and "list_all (\<lambda>e. \<not> closeEvent e) evs" and "r = (a \<or> list_ex (parseResult env) evs)"
    by (auto elim: ran_ReturnE)
  with assms(2,3) have "ran env w a (Return r w')"
    by (intro ran_ReturnI [of _ _ "evs0 @ evs"]) (simp_all add: emits_def)
  with Return show ?thesis by simp
qed (simp_all add: ran_def)

lemma entryOutput_quiet:
  "list_all (\<lambda>e. \<not> closeEvent e) (entryOutput filter_p opts) \<and>
   \<not> list_ex (parseResult env) (entryOutput filter_p opts)"
  by (simp add: entryOutput_def split: option.splits)

lemma ran_createTagsFromFileInput_loop:
  assumes "walks env entry"
  shows "ran env w resize (createTagsFromFileInput_loop entry env filter_p args resize w)"
  using assms
proof (induction entry env filter_p args resize w rule: createTagsFromFileInput_loop.induct)
  case (1 entry env filter_p args resize w)
  show ?case
  proof (cases args)
    case Nil
    then show ?thesis
      by (simp add: createTagsFromFileInput_loop_Nil ran_same_trace)
  next
    case (Cons a rest)
    then have off: "\<not> cArgOff args" and forth: "cArgForth args = rest"
      by (simp_all add: cArgOff_def cArgForth_def)
    have step: "ran env w False (entry a w)"
      using "1.prems" by (auto intro!: ran_of_walked simp: walks_def)
    have "ran env w (resize \<or> False)
       (bind (entry a w)
         (\<lambda>r w1. case parseCmdlineOptions env rest (emits (entryOutput filter_p (Option w1)) w1) of
                  (args', w3) \<Rightarrow>
                    createTagsFromFileInput_loop entry env filter_p args' (resize \<or> r) w3))"
    proof (rule ran_bind [OF step])
      fix r w1
      let ?w2 = "emits (entryOutput filter_p (Option w1)) w1"
      obtain args' w3 where p: "parseCmdlineOptions env rest ?w2 = (args', w3)"
        by (cases "parseCmdlineOptions env rest ?w2")
      have "ran env w3 (resize \<or> r)
              (createTagsFromFileInput_loop entry env filter_p args' (resize \<or> r) w3)"
      proof (rule "1.IH")
        show "\<not> cArgOff args" by (rule off)
        show "?w2 = (if filter_p
          then emit Fflush
                (case filterTerminator (Option w1) of None \<Rightarrow> w1
                 | Some t \<Rightarrow> emit (Fputs (Text t)) w1)
          else w1)"
          by (simp add: emit_entryOutput)
        show "(args', w3) = parseCmdlineOptions env (cArgForth args) ?w2"
          by (simp add: p forth)
        show "walks env entry" by (rule "1.prems")
      qed
      then have "ran env ?w2 (resize \<or> r)
              (createTagsFromFileInput_loop entry env filter_p args' (resize \<or> r) w3)"
        using trace_parseCmdlineOptions [OF p] by (rule ran_transport)
      then have "ran env w1 (resize \<or> r)
              (createTagsFromFileInput_loop entry env filter_p args' (resize \<or> r) w3)"
        using entryOutput_quiet [of filter_p "Option w1" env] by (auto intro: ran_after_emits)
      then show "ran env w1 (resize \<or> r)
         (case parseCmdlineOptions env rest ?w2 of
            (args', w3) \<Rightarrow>
              createTagsFromFileInput_loop entry env filter_p args' (resize \<or> r) w3)"
        by (simp add: p)
    qed
    then show ?thesis
      by (simp add: Cons createTagsFromFileInput_loop_Cons)
  qed
qed

lemma ran_createTagsFromFileInput:
  assumes "walks env entry"
  shows "ran env w False (createTagsFromFileInput entry env fp filter_p w)"
proof (cases fp)
  case None
  then show ?thesis
    by (simp add: createTagsFromFileInput_def ran_same_trace)
next
  case (Some f)
  let ?contents = "case f of Stdin \<Rightarrow> stdin w | Opened s \<Rightarrow> s"
  let ?w0 = "case f of Stdin \<Rightarrow> w\<lparr>stdin := []\<rparr> | Opened s \<Rightarrow> w"
  obtain args w1 where p: "parseCmdlineOptions env (cArgNewFromLineFile env ?contents) ?w0 = (args, w1)"
    by (cases "parseCmdlineOptions env (cArgNewFromLineFile env ?contents) ?w0")
  have eq: "createTagsFromFileInput entry env fp filter_p w =
      createTagsFromFileInput_loop entry env filter_p args False w1"
    using p Some by (cases f) (simp_all add: createTagsFromFileInput_def)
  have "trace w1 = trace w"
    using trace_parseCmdlineOptions [OF p] by (cases f) simp_all
  with ran_createTagsFromFileInput_loop [OF assms, of w1 False filter_p args] show ?thesis
    unfolding eq by (rule ran_transport)
qed

lemma ran_createTagsFromListFile:
  assumes "walks env entry"
  shows "ran env w False (createTagsFromListFile entry env fileName w)"
  using ran_createTagsFromFileInput [OF assms]
  by (simp add: createTagsFromListFile_def error_FATAL_def ran_def split: option.splits)

lemma closesWith_ReturnI:
  "trace w' = trace w @ evs \<Longrightarrow>
   (\<And>b. CloseTagFile b \<in> set evs \<Longrightarrow> b = (a \<or> list_ex (parseResult env) evs)) \<Longrightarrow>
   closesWith env w a (Return u w')"
  unfolding closesWith_def by (simp only: outcome.case) blast

lemma closes_bind:
  assumes m: "ran env w a m"
    and f: "\<And>r w1. m = Return r w1 \<Longrightarrow> closesWith env w1 r (f r w1)"
  shows "closesWith env w a (bind m f)"
proof (cases m)
  case (Return r w1)
  with m obtain evs1 where t1: "trace w1 = trace w @ evs1"
    and c1: "list_all (\<lambda>e. \<not> closeEvent e) evs1"
    and r: "r = (a \<or> list_ex (parseResult env) evs1)"
    by (auto elim: ran_ReturnE)
  show ?thesis
  proof (cases "f r w1")
    case Return2: (Return u w2)
    with f [OF Return] obtain evs2 where t2: "trace w2 = trace w1 @ evs2"
      and c2: "\<forall>b. CloseTagFile b \<in> set evs2 \<longrightarrow> b = (r \<or> list_ex (parseResult env) evs2)"
      by (auto simp: closesWith_def)
    have "closesWith env w a (Return u w2)"
    proof (rule closesWith_ReturnI [of _ _ "evs1 @ evs2"])
      show "trace w2 = trace w @ (evs1 @ evs2)"
        by (simp add: t1 t2)
      fix b
      assume "CloseTagFile b \<in> set (evs1 @ evs2)"
      moreover have "CloseTagFile b \<notin> set evs1"
        using c1 by (auto simp: list_all_iff)
      ultimately have "CloseTagFile b \<in> set evs2" by simp
      with c2 have "b = (r \<or> list_ex (parseResult env) evs2)" by simp
      with r show "b = (a \<or> list_ex (parseResult env) (evs1 @ evs2))" by auto
    qed
    with Return Return2 show ?thesis by simp
  qed (simp_all add: Return closesWith_def)
qed (simp_all add: closesWith_def)

lemma closes_after_emit:
  assumes "closesWith env (emit e w) a out" and "\<not> closeEvent e" and "\<not> parseResult env e"
  shows "closesWith env w a out"
proof (cases out)
  case (Return u w')
  with assms(1) obtain evs where t: "trace w' = trace (emit e w) @ evs"
    and c: "\<forall>b. CloseTagFile b \<in> set evs \<longrightarrow> b = (a \<or> list_ex (parseResult env) evs)"
    by (auto simp: closesWith_def)
  have "closesWith env w a (Return u w')"
  proof (rule closesWith_ReturnI [of _ _ "e # evs"])
    show "trace w' = trace w @ (e # evs)"
      using t by (simp add: emit_def)
    fix b
    assume "CloseTagFile b \<in> set (e # evs)"
    with c assms(2,3) show "b = (a \<or> list_ex (parseResult env) (e # evs))"
      by (cases e) auto
  qed
  with Return show ?thesis by simp
qed (simp_all add: closesWith_def)

lemma closes_finish:
  "closesWith env w5 resize
     (Return ()
        (let w6 = (if \<not> filter_opt (Option w5) \<and> \<not> printLanguage (Option w5)
                   then emit (CloseTagFile resize) w5 else w5)
         in if printTotals (Option w6) then emit PrintTotals w6 else w6))"
proof -
  let ?evs = "(if \<not> filter_opt (Option w5) \<and> \<not> printLanguage (Option w5)
               then [CloseTagFile resize] else []) @
              (if printTotals (Option w5) then [PrintTotals] else [])"
  let ?w7 = "(let w6 = (if \<not> filter_opt (Option w5) \<and> \<not> printLanguage (Option w5)
                   then emit (CloseTagFile resize) w5 else w5)
         in if printTotals (Option w6) then emit PrintTotals w6 else w6)"
  show ?thesis
  proof (rule closesWith_ReturnI [of _ _ ?evs])
    show "trace ?w7 = trace w5 @ ?evs"
      by (simp add: emit_def Let_def)
    fix b
    assume "CloseTagFile b \<in> set ?evs"
    then show "b = (resize \<or> list_ex (parseResult env) ?evs)"
      by (auto split: if_splits)
  qed
qed

lemma ran_after_verbose:
  "ran env (verbose m w) a out \<Longrightarrow> ran env w a out"
  using ran_after_emit [of env "Verbose m" w a out] by (simp add: verbose_def)

lemma ran_stage_args:
  assumes "walks env entry"
  shows "ran env w False
     (if \<not> cArgOff args then createTagsForArgs entry env args (verbose ReadingCommandLine w)
      else Return False w)"
  using ran_createTagsForArgs_loop [OF assms, of "verbose ReadingCommandLine w" False args]
  by (auto simp: createTagsForArgs_def ran_same_trace intro: ran_after_verbose)

lemma ran_stage_list:
  assumes "walks env entry"
  shows "ran env w resize
     (case fileList (Option w) of
        Some fileName \<Rightarrow>
          bind (createTagsFromListFile entry env fileName (verbose ReadingListFile w))
            (\<lambda>r w'. Return (r \<or> resize) w')
      | None \<Rightarrow> Return resize w)"
proof (cases "fileList (Option w)")
  case None
  then show ?thesis by (simp add: ran_same_trace)
next
  case (Some fileName)
  have "ran env (verbose ReadingListFile w) resize
     (bind (createTagsFromListFile entry env fileName (verbose ReadingListFile w))
        (\<lambda>r w'. Return (r \<or> resize) w'))"
    using ran_createTagsFromListFile [OF assms] by (rule ran_or)
  then show ?thesis
    unfolding Some option.case by (rule ran_after_verbose)
qed

lemma ran_stage_filter:
  assumes "walks env entry"
  shows "ran env w resize
     (if filter_opt (Option w) then
        bind (createTagsFromFileInput entry env (Some Stdin) True (verbose ReadingFilterInput w))
          (\<lambda>r w'. Return (r \<or> resize) w')
      else Return resize w)"
proof (cases "filter_opt (Option w)")
  case False
  then show ?thesis by (simp add: ran_same_trace)
next
  case True
  have "ran env (verbose ReadingFilterInput w) resize
     (bind (createTagsFromFileInput entry env (Some Stdin) True (verbose ReadingFilterInput w))
        (\<lambda>r w'. Return (r \<or> resize) w'))"
    using ran_createTagsFromFileInput [OF assms] by (rule ran_or)
  then have "ran env w resize
     (bind (createTagsFromFileInput entry env (Some Stdin) True (verbose ReadingFilterInput w))
        (\<lambda>r w'. Return (r \<or> resize) w'))"
    by (rule ran_after_verbose)
  with True show ?thesis by simp
qed

lemma batchMakeTags_without_sources:
  assumes "cArgOff args" and "fileList (Option w) = None" and "\<not> filter_opt (Option w)"
  shows "batchMakeTags fuel env args w =
     (if filesRequired env (Option w) then Fatal NoFilesSpecified w
      else if \<not> recurse (Option w) \<and> \<not> etagsInclude (Option w) then Return () w
      else bind (if recurse (Option w) then
                   recurseIntoDirectory (createTagsForEntry fuel env) env ''.''
                     (if printLanguage (Option w) then w else emit OpenTagFile w)
                 else Return False (if printLanguage (Option w) then w else emit OpenTagFile w))
             finishBatch)"
  using assms
  by (auto simp: batchMakeTags_def error_FATAL_def Let_def emit_def finishBatch_def
      intro!: bind_cong_fun)

lemma batchMakeTags_with_sources:
  assumes "\<not> cArgOff args \<or> fileList (Option w) \<noteq> None \<or> filter_opt (Option w)"
  shows "batchMakeTags fuel env args w =
     bind (if \<not> cArgOff args then
             createTagsForArgs (createTagsForEntry fuel env) env args
               (verbose ReadingCommandLine
                  (if \<not> filter_opt (Option w) \<and> \<not> printLanguage (Option w)
                   then emit OpenTagFile w else w))
           else Return False
                  (if \<not> filter_opt (Option w) \<and> \<not> printLanguage (Option w)
                   then emit OpenTagFile w else w))
       (\<lambda>resize w2.
          bind (case fileList (Option w2) of
                  Some fileName \<Rightarrow>
                    bind (createTagsFromListFile (createTagsForEntry fuel env) env fileName
                            (verbose ReadingListFile w2))
                      (\<lambda>r w'. Return (r \<or> resize) w')
                | None \<Rightarrow> Return resize w2)
            (\<lambda>resize w3.
               bind (if filter_opt (Option w3) then
                       bind (createTagsFromFileInput (createTagsForEntry fuel env) env (Some Stdin)
                               True (verbose ReadingFilterInput w3))
                         (\<lambda>r w'. Return (r \<or> resize) w')
                     else Return resize w3)
                 finishBatch))"
proof -
  have files: "(\<not> cArgOff args \<or> fileList (Option w) \<noteq> None \<or> filter_opt (Option w)) = True"
    using assms by simp
  have fin: "finishBatch = (\<lambda>resize w5. Return ()
       (let w6 = (if \<not> filter_opt (Option w5) \<and> \<not> printLanguage (Option w5)
                  then emit (CloseTagFile resize) w5 else w5)
        in if printTotals (Option w6) then emit PrintTotals w6 else w6))"
    by (intro ext) (simp add: finishBatch_def)
  show ?thesis
    unfolding batchMakeTags_def fin Let_def files
    by (simp only: simp_thms if_True if_False bind.simps)
qed

lemma closes_finishBatch: "closesWith env w5 resize (finishBatch resize w5)"
  unfolding finishBatch_def by (rule closes_finish)

lemma closes_after_open:
  assumes "closesWith env (if c then emit OpenTagFile w else w) a out"
  shows "closesWith env w a out"
proof (cases c)
  case True
  with assms have "closesWith env (emit OpenTagFile w) a out" by simp
  then show ?thesis by (rule closes_after_emit) simp_all
next
  case False
  with assms show ?thesis by simp
qed

lemma closes_batchMakeTags: "closesWith env w False (batchMakeTags fuel env args w)"
proof (cases "\<not> cArgOff args \<or> fileList (Option w) \<noteq> None \<or> filter_opt (Option w)")
  case True
  let ?entry = "createTagsForEntry fuel env"
  let ?w1 = "if \<not> filter_opt (Option w) \<and> \<not> printLanguage (Option w)
             then emit OpenTagFile w else w"
  have walks: "walks env ?entry"
    by (rule walks_createTagsForEntry)
  have "closesWith env ?w1 False (batchMakeTags fuel env args w)"
    unfolding batchMakeTags_with_sources [OF True]
  proof (rule closes_bind)
    show "ran env ?w1 False
       (if \<not> cArgOff args then createTagsForArgs ?entry env args (verbose ReadingCommandLine ?w1)
        else Return False ?w1)"
      using walks by (rule ran_stage_args)
  next
    fix r1 w2
    show "closesWith env w2 r1
       (bind (case fileList (Option w2) of
                  Some fileName \<Rightarrow>
                    bind (createTagsFromListFile ?entry env fileName (verbose ReadingListFile w2))
                      (\<lambda>r w'. Return (r \<or> r1) w')
                | None \<Rightarrow> Return r1 w2)
            (\<lambda>resize w3.
               bind (if filter_opt (Option w3) then
                       bind (createTagsFromFileInput ?entry env (Some Stdin)
                               True (verbose ReadingFilterInput w3))
                         (\<lambda>r w'. Return (r \<or> resize) w')
                     else Return resize w3)
                 finishBatch))"
    proof (rule closes_bind)
      show "ran env w2 r1
         (case fileList (Option w2) of
            Some fileName \<Rightarrow>
              bind (createTagsFromListFile ?entry env fileName (verbose ReadingListFile w2))
                (\<lambda>r w'. Return (r \<or> r1) w')
          | None \<Rightarrow> Return r1 w2)"
        using walks by (rule ran_stage_list)
    next
      fix r2 w3
      show "closesWith env w3 r2
         (bind (if filter_opt (Option w3) then
                  bind (createTagsFromFileInput ?entry env (Some Stdin)
                          True (verbose ReadingFilterInput w3))
                    (\<lambda>r w'. Return (r \<or> r2) w')
                else Return r2 w3)
            finishBatch)"
      proof (rule closes_bind)
        show "ran env w3 r2
           (if filter_opt (Option w3) then
              bind (createTagsFromFileInput ?entry env (Some Stdin)
                      True (verbose ReadingFilterInput w3))
                (\<lambda>r w'. Return (r \<or> r2) w')
            else Return r2 w3)"
          using walks by (rule ran_stage_filter)
      next
        fix r3 w4
        show "closesWith env w4 r3 (finishBatch r3 w4)"
          by (rule closes_finishBatch)
      qed
    qed
  qed
  then show ?thesis by (rule closes_after_open)
next
  case False
  then have none: "cArgOff args" "fileList (Option w) = None" "\<not> filter_opt (Option w)"
    by simp_all
  let ?w1 = "if printLanguage (Option w) then w else emit OpenTagFile w"
  have w1: "?w1 = (if \<not> printLanguage (Option w) then emit OpenTagFile w else w)"
    by simp
  have rec: "closesWith env w False
     (bind (if recurse (Option w) then
              recurseIntoDirectory (createTagsForEntry fuel env) env ''.'' ?w1
            else Return False ?w1)
        finishBatch)"
  proof -
    have "ran env ?w1 False
       (if recurse (Option w) then
          recurseIntoDirectory (createTagsForEntry fuel env) env ''.'' ?w1
        else Return False ?w1)"
      using walked_recurseIntoDirectory [OF walks_createTagsForEntry, of env ?w1 fuel "''.''"]
      by (auto intro: ran_of_walked ran_same_trace)
    then have "closesWith env ?w1 False
       (bind (if recurse (Option w) then
                recurseIntoDirectory (createTagsForEntry fuel env) env ''.'' ?w1
              else Return False ?w1)
          finishBatch)"
      by (rule closes_bind) (rule closes_finishBatch)
    then show ?thesis
      unfolding w1 by (rule closes_after_open)
  qed
  have ret: "closesWith env w False (Return () w)"
    by (rule closesWith_ReturnI [of _ _ "[]"]) simp_all
  show ?thesis
    unfolding batchMakeTags_without_sources [OF none]
    using rec ret by (simp add: closesWith_def)
qed

lemma createTagsForArgs_loop_keeps_flag:
  "createTagsForArgs_loop entry env args resize w = Return r w' \<Longrightarrow> resize \<Longrightarrow> r"
proof (induction entry env args resize w rule: createTagsForArgs_loop.induct)
  case (1 entry env args resize w)
  show ?case
  proof (cases args)
    case Nil
    with "1.prems" show ?thesis by (simp add: createTagsForArgs_loop_Nil)
  next
    case (Cons a rest)
    then have off: "\<not> cArgOff args" and forth: "cArgForth args = rest"
      by (simp_all add: cArgOff_def cArgForth_def)
    from "1.prems"(1) Cons obtain r1 w1 where
      "(case parseCmdlineOptions env rest w1 of
           (args', w2) \<Rightarrow> createTagsForArgs_loop entry env args' (resize \<or> r1) w2) = Return r w'"
      by (auto simp: createTagsForArgs_loop_Cons bind_eq_Return)
    then obtain args' w2 where p: "parseCmdlineOptions env rest w1 = (args', w2)"
      and loop: "createTagsForArgs_loop entry env args' (resize \<or> r1) w2 = Return r w'"
      by (cases "parseCmdlineOptions env rest w1") simp
    show ?thesis
    proof (rule "1.IH")
      show "\<not> cArgOff args" by (rule off)
      show "cArgItem args = cArgItem args" by (rule refl)
      show "(args', w2) = parseCmdlineOptions env (cArgForth args) w1" by (simp add: p forth)
      show "createTagsForArgs_loop entry env args' (resize \<or> r1) w2 = Return r w'" by (rule loop)
      show "resize \<or> r1" using "1.prems"(2) by simp
    qed
  qed
qed

lemma createTagsFromFileInput_loop_keeps_flag:
  "createTagsFromFileInput_loop entry env filter_p args resize w = Return r w' \<Longrightarrow> resize \<Longrightarrow> r"
proof (induction entry env filter_p args resize w rule: createTagsFromFileInput_loop.induct)
  case (1 entry env filter_p args resize w)
  show ?case
  proof (cases args)
    case Nil
    with "1.prems" show ?thesis by (simp add: createTagsFromFileInput_loop_Nil)
  next
    case (Cons a rest)
    then have off: "\<not> cArgOff args" and forth: "cArgForth args = rest"
      by (simp_all add: cArgOff_def cArgForth_def)
    from "1.prems"(1) Cons obtain r1 w1 where
      "(case parseCmdlineOptions env rest (emits (entryOutput filter_p (Option w1)) w1) of
           (args', w3) \<Rightarrow>
             createTagsFromFileInput_loop entry env filter_p args' (resize \<or> r1) w3) = Return r w'"
      by (auto simp: createTagsFromFileInput_loop_Cons bind_eq_Return)
    then obtain args' w3 where
      p: "parseCmdlineOptions env rest (emits (entryOutput filter_p (Option w1)) w1) = (args', w3)"
      and loop: "createTagsFromFileInput_loop entry env filter_p args' (resize \<or> r1) w3 = Return r w'"
      by (cases "parseCmdlineOptions env rest (emits (entryOutput filter_p (Option w1)) w1)") simp
    show ?thesis
    proof (rule "1.IH")
      show "\<not> cArgOff args" by (rule off)
      show "emits (entryOutput filter_p (Option w1)) w1 = (if filter_p
          then emit Fflush
                (case filterTerminator (Option w1) of None \<Rightarrow> w1
                 | Some t \<Rightarrow> emit (Fputs (Text t)) w1)
          else w1)"
        by (simp add: emit_entryOutput)
      show "(args', w3) =
          parseCmdlineOptions env (cArgForth args) (emits (entryOutput filter_p (Option w1)) w1)"
        by (simp add: p forth)
      show "createTagsFromFileInput_loop entry env filter_p args' (resize \<or> r1) w3 = Return r w'"
        by (rule loop)
      show "resize \<or> r1" using "1.prems"(2) by simp
    qed
  qed
qed

lemma closesWith_newEvents:
  assumes "closesWith env w False (Return u w')"
  shows "take (length (trace w)) (trace w') = trace w \<and>
     (\<forall>b. CloseTagFile b \<in> set (newEvents w w') \<longrightarrow>
          b = list_ex (parseResult env) (newEvents w w'))"
  using assms by (auto simp: closesWith_def newEvents_def)

lemma filterOutput_not_filter: "filterOutput env False toks opts = []"
  by (induction toks arbitrary: opts) (simp_all add: entryOutput_def)

lemma filterOutput_flushes:
  "length (filter (\<lambda>e. e = Fflush) (filterOutput env True toks opts)) =
   length (filter (\<lambda>a. \<not> cArgIsOption env a) toks)"
  by (induction toks arbitrary: opts) (simp_all add: entryOutput_def split: option.splits)

lemma filterOutput_no_options:
  "list_all (\<lambda>a. \<not> cArgIsOption env a) toks \<Longrightarrow>
   filterOutput env filter_p toks opts = concat (map (\<lambda>a. entryOutput filter_p opts) toks)"
  by (induction toks) simp_all

section \<open>The sources as lists of entries\<close>

lemma bind_assoc: "bind (bind m f) g = bind m (\<lambda>a w. bind (f a w) g)"
  by (cases m) simp_all

lemma bind_Return_right: "bind m (\<lambda>a w. Return a w) = m"
  by (cases m) simp_all

lemma classifyEach_resolveEach:
  "classifyEach entry ps acc w =
     bind (resolveEach entry ps w) (\<lambda>rs w'. Return (acc \<or> anyOf rs) w')"
proof (induction ps arbitrary: acc w)
  case Nil
  show ?case by simp
next
  case (Cons p ps)
  show ?case
    by (auto simp: bind_assoc Cons.IH intro!: bind_cong_fun)
qed


lemma anyOf_append: "anyOf (rs @ rs') = (anyOf rs \<or> anyOf rs')"
  by (induction rs) simp_all

lemma emits_Nil: "emits [] w = w"
  by (simp add: emits_def)

lemma entryOutput_False: "entryOutput False opts = []"
  by (simp add: entryOutput_def)

lemma createTagsForWildcardArg_resolveEach:
  "createTagsForWildcardArg entry env arg w =
     bind (resolveEach entry (resolvedItem env True (Option w) arg) w)
       (\<lambda>rs w'. Return (anyOf rs) w')"
  by (cases "dirIter env")
     (simp_all add: createTagsForWildcardArg_def resolvedItem_def Let_def strcmp_eq_0_iff
        createTagsForWildcardUsingFindfirst_def findfirst_loop_classifyEach
        classifyEach_resolveEach)

lemma entry_resolveEach:
  "entry a w = bind (resolveEach entry (resolvedItem env False opts a) w)
                 (\<lambda>rs w'. Return (anyOf rs) w')"
  by (simp add: resolvedItem_def bind_assoc bind_Return_right)

lemma step_resolveEach:
  "(if MANUAL_GLOBBING env then createTagsForWildcardArg entry env a w else entry a w) =
     bind (resolveEach entry (resolvedItem env (MANUAL_GLOBBING env) (Option w) a) w)
       (\<lambda>rs w'. Return (anyOf rs) w')"
  using createTagsForWildcardArg_resolveEach [of entry env a w]
    entry_resolveEach [of entry a w env "Option w"]
  by (cases "MANUAL_GLOBBING env") simp_all

lemma resolveTokens_parseCmdlineOptions:
  "resolveTokens entry env glob filter_p toks w =
     (case parseCmdlineOptions env toks w of
        (args', w') \<Rightarrow> resolveCursor entry env glob filter_p args' w')"
proof (induction toks arbitrary: w)
  case Nil
  show ?case by (simp add: parseCmdlineOptions_def resolveCursor_def)
next
  case (Cons a toks)
  show ?case
  proof (cases "cArgIsOption env a")
    case True
    then show ?thesis
      by (simp add: Cons.IH parseCmdlineOptions_def split: prod.splits)
  next
    case False
    then show ?thesis
      by (simp add: parseCmdlineOptions_def resolveCursor_def)
  qed
qed

lemma createTagsForArgs_loop_resolveCursor:
  "createTagsForArgs_loop entry env args acc w =
     bind (resolveCursor entry env (MANUAL_GLOBBING env) False args w)
       (\<lambda>rs w'. Return (acc \<or> anyOf rs) w')"
proof (induction entry env args acc w rule: createTagsForArgs_loop.induct)
  case (1 entry env args resize w)
  show ?case
  proof (cases args)
    case Nil
    then show ?thesis
      by (simp add: createTagsForArgs_loop_Nil resolveCursor_def)
  next
    case (Cons a rest)
    then have off: "\<not> cArgOff args" and forth: "cArgForth args = rest"
      by (simp_all add: cArgOff_def cArgForth_def)
    have k: "(case parseCmdlineOptions env rest w1 of
               (args', w2) \<Rightarrow> createTagsForArgs_loop entry env args' (resize \<or> r) w2) =
             bind (resolveTokens entry env (MANUAL_GLOBBING env) False rest w1)
               (\<lambda>rs w'. Return ((resize \<or> r) \<or> anyOf rs) w')" for r w1
    proof -
      obtain args' w2 where p: "parseCmdlineOptions env rest w1 = (args', w2)"
        by (cases "parseCmdlineOptions env rest w1")
      have "createTagsForArgs_loop entry env args' (resize \<or> r) w2 =
          bind (resolveCursor entry env (MANUAL_GLOBBING env) False args' w2)
            (\<lambda>rs w'. Return ((resize \<or> r) \<or> anyOf rs) w')"
      proof (rule "1.IH")
        show "\<not> cArgOff args" by (rule off)
        show "cArgItem args = cArgItem args" by (rule refl)
        show "(args', w2) = parseCmdlineOptions env (cArgForth args) w1" by (simp add: p forth)
      qed
      then show ?thesis
        by (simp add: p resolveTokens_parseCmdlineOptions)
    qed
    show ?thesis
      unfolding Cons createTagsForArgs_loop_Cons k step_resolveEach
      by (simp add: resolveCursor_def bind_assoc entryOutput_False emits_Nil anyOf_append)
  qed
qed

lemma createTagsFromFileInput_loop_resolveCursor:
  "createTagsFromFileInput_loop entry env filter_p args acc w =
     bind (resolveCursor entry env False filter_p args w)
       (\<lambda>rs w'. Return (acc \<or> anyOf rs) w')"
proof (induction entry env filter_p args acc w rule: createTagsFromFileInput_loop.induct)
  case (1 entry env filter_p args resize w)
  show ?case
  proof (cases args)
    case Nil
    then show ?thesis
      by (simp add: createTagsFromFileInput_loop_Nil resolveCursor_def)
  next
    case (Cons a rest)
    then have off: "\<not> cArgOff args" and forth: "cArgForth args = rest"
      by (simp_all add: cArgOff_def cArgForth_def)
    have k: "(case parseCmdlineOptions env rest (emits (entryOutput filter_p (Option w1)) w1) of
               (args', w3) \<Rightarrow>
                 createTagsFromFileInput_loop entry env filter_p args' (resize \<or> r) w3) =
             bind (resolveTokens entry env False filter_p rest
                     (emits (entryOutput filter_p (Option w1)) w1))
               (\<lambda>rs w'. Return ((resize \<or> r) \<or> anyOf rs) w')" for r w1
    proof -
      let ?w2 = "emits (entryOutput filter_p (Option w1)) w1"
      obtain args' w3 where p: "parseCmdlineOptions env rest ?w2 = (args', w3)"
        by (cases "parseCmdlineOptions env rest ?w2")
      have "createTagsFromFileInput_loop entry env filter_p args' (resize \<or> r) w3 =
          bind (resolveCursor entry env False filter_p args' w3)
            (\<lambda>rs w'. Return ((resize \<or> r) \<or> anyOf rs) w')"
      proof (rule "1.IH")
        show "\<not> cArgOff args" by (rule off)
        show "?w2 = (if filter_p
          then emit Fflush
                (case filterTerminator (Option w1) of None \<Rightarrow> w1
                 | Some t \<Rightarrow> emit (Fputs (Text t)) w1)
          else w1)"
          by (simp add: emit_entryOutput)
        show "(args', w3) = parseCmdlineOptions env (cArgForth args) ?w2"
          by (simp add: p forth)
      qed
      then show ?thesis
        by (simp add: p resolveTokens_parseCmdlineOptions)
    qed
    show ?thesis
      unfolding Cons createTagsFromFileInput_loop_Cons k
      by (subst entry_resolveEach [of entry a w env "Option w"])
         (simp add: resolveCursor_def bind_assoc anyOf_append)
  qed
qed


lemma createTagsForArgs_resolveCursor:
  "createTagsForArgs entry env args w =
     bind (resolveCursor entry env (MANUAL_GLOBBING env) False args w)
       (\<lambda>rs w'. Return (anyOf rs) w')"
  by (simp add: createTagsForArgs_def createTagsForArgs_loop_resolveCursor)

lemma createTagsFromFileInput_resolveFileInput:
  "createTagsFromFileInput entry env fp filter_p w =
     bind (resolveFileInput entry env fp filter_p w) (\<lambda>rs w'. Return (anyOf rs) w')"
proof (cases fp)
  case None
  then show ?thesis
    by (simp add: createTagsFromFileInput_def resolveFileInput_def)
next
  case (Some f)
  then show ?thesis
    by (cases f)
       (simp_all add: createTagsFromFileInput_def resolveFileInput_def
          resolveTokens_parseCmdlineOptions createTagsFromFileInput_loop_resolveCursor
          split: prod.splits)
qed

lemma createTagsFromListFile_resolveListFile:
  "createTagsFromListFile entry env fileName w =
     bind (resolveListFile entry env fileName w) (\<lambda>rs w'. Return (anyOf rs) w')"
  by (simp add: createTagsFromListFile_def resolveListFile_def strcmp_eq_0_iff error_FATAL_def
      createTagsFromFileInput_resolveFileInput split: option.splits)

lemma bind_if: "bind (if c then a else b) k = (if c then bind a k else bind b k)"
  by simp

lemma bind_case_option:
  "bind (case x of None \<Rightarrow> a | Some y \<Rightarrow> b y) k =
     (case x of None \<Rightarrow> bind a k | Some y \<Rightarrow> bind (b y) k)"
  by (cases x) simp_all

lemma batchMakeTags_resolveSources:
  "batchMakeTags fuel env args w =
     (if cArgOff args \<and> fileList (Option w) = None \<and> \<not> filter_opt (Option w) \<and>
         filesRequired env (Option w)
      then Fatal NoFilesSpecified w
      else if cArgOff args \<and> fileList (Option w) = None \<and> \<not> filter_opt (Option w) \<and>
              \<not> recurse (Option w) \<and> \<not> etagsInclude (Option w)
      then Return () w
      else bind (resolveSources fuel env args w) (\<lambda>rs w5. finishBatch (anyOf rs) w5))"
proof (cases "\<not> cArgOff args \<or> fileList (Option w) \<noteq> None \<or> filter_opt (Option w)")
  case True
  then have src: "\<not> (cArgOff args \<and> fileList (Option w) = None \<and> \<not> filter_opt (Option w))"
    by auto
  have active: "(\<not> cArgOff args \<or> fileList (Option w) \<noteq> None \<or> filter_opt (Option w)) = True"
    using True by simp
  have "batchMakeTags fuel env args w =
      bind (resolveSources fuel env args w) (\<lambda>rs w5. finishBatch (anyOf rs) w5)"
    unfolding batchMakeTags_with_sources [OF True] resolveSources_def Let_def active
    by (simp add: createTagsForArgs_resolveCursor createTagsFromListFile_resolveListFile
        createTagsFromFileInput_resolveFileInput bind_assoc bind_if bind_case_option
        anyOf_append disj_ac
        cong: if_cong option.case_cong)
  with src show ?thesis by auto
next
  case False
  then have none: "cArgOff args" "fileList (Option w) = None" "\<not> filter_opt (Option w)"
    by simp_all
  have active: "(\<not> cArgOff args \<or> fileList (Option w) \<noteq> None \<or> filter_opt (Option w)) = False"
    using False by simp
  show ?thesis
    unfolding batchMakeTags_without_sources [OF none] resolveSources_def Let_def active
    using none
    by (simp add: bind_assoc emit_def verbose_def cong: if_cong)
qed


lemma statsFirst_createTagsForEntry: "statsFirst (createTagsForEntry fuel env)"
  unfolding statsFirst_def
proof (intro allI impI)
  fix p w r w1
  assume ret: "createTagsForEntry fuel env p w = Return r w1"
  then obtain n where fuel: "fuel = Suc n"
    by (cases fuel) simp_all
  show "\<exists>rest. w1 = w\<lparr>trace := trace w @ EStat p # rest\<rparr> \<and> list_all walkEvent rest"
  proof (cases "classify env (Option w) p")
    case Directory
    with ret fuel have rec:
      "recurseIntoDirectory (createTagsForEntry n env) env p (emits [EStat p] w) = Return r w1"
      by (simp add: createTagsForEntry_Suc del: createTagsForEntry.simps)
    have "walked env (emits [EStat p] w) False
        (recurseIntoDirectory (createTagsForEntry n env) env p (emits [EStat p] w))"
      using walks_createTagsForEntry by (rule walked_recurseIntoDirectory)
    with rec obtain evs where
      "w1 = (emits [EStat p] w)\<lparr>trace := trace (emits [EStat p] w) @ evs\<rparr>"
      and "list_all walkEvent evs"
      by (auto simp: walked_def)
    then show ?thesis
      by (intro exI [of _ evs]) (simp add: emits_def)
  next
    case Excluded
    with ret fuel show ?thesis
      by (intro exI [of _ "[Verbose (Excluding p)]"])
         (auto simp: createTagsForEntry_Suc emits_def simp del: createTagsForEntry.simps)
  next
    case SymbolicLinkSkipped
    with ret fuel show ?thesis
      by (intro exI [of _ "[Verbose (IgnoringSymbolicLink p)]"])
         (auto simp: createTagsForEntry_Suc emits_def simp del: createTagsForEntry.simps)
  next
    case Missing
    with ret fuel show ?thesis
      by (intro exI [of _ "[Warning (CannotOpenInputFile p)]"])
         (auto simp: createTagsForEntry_Suc emits_def simp del: createTagsForEntry.simps)
  next
    case SpecialFile
    with ret fuel show ?thesis
      by (intro exI [of _ "[Verbose (IgnoringSpecialFile p)]"])
         (auto simp: createTagsForEntry_Suc emits_def simp del: createTagsForEntry.simps)
  next
    case RegularFile
    with ret fuel show ?thesis
      by (intro exI [of _ "[ParseFile p]"])
         (auto simp: createTagsForEntry_Suc emits_def simp del: createTagsForEntry.simps)
  qed
qed

lemma resolveTokens_blocks:
  assumes "statsFirst entry"
    and "resolveTokens entry env False filter_p toks w = Return rs w'"
  shows "\<exists>rests. length rests = length (entriesWithOptions env toks (Option w)) \<and>
           list_all (list_all walkEvent) rests \<and>
           trace w' =
             trace w @
             concat (map (entryBlock filter_p)
                       (zip rests (entriesWithOptions env toks (Option w))))"
  using assms(2)
proof (induction toks arbitrary: w rs)
  case Nil
  then show ?case by simp
next
  case (Cons a toks)
  show ?case
  proof (cases "cArgIsOption env a")
    case True
    with Cons.prems have
      "resolveTokens entry env False filter_p toks (w\<lparr>Option := applyOption env a (Option w)\<rparr>) =
         Return rs w'"
      by simp
    from Cons.IH [OF this] True show ?thesis by simp
  next
    case False
    with Cons.prems obtain r w1 rs' where entry: "entry a w = Return r w1"
      and rest: "resolveTokens entry env False filter_p toks
                   (emits (entryOutput filter_p (Option w1)) w1) = Return rs' w'"
      by (auto simp: resolvedItem_def bind_assoc bind_eq_Return)
    from assms(1) entry obtain evs where w1: "w1 = w\<lparr>trace := trace w @ EStat a # evs\<rparr>"
      and evs: "list_all walkEvent evs"
      unfolding statsFirst_def by blast
    let ?es = "entriesWithOptions env toks (Option w)"
    from Cons.IH [OF rest] obtain rests where
      len: "length rests = length ?es" and walk: "list_all (list_all walkEvent) rests"
      and tr: "trace w' = trace (emits (entryOutput filter_p (Option w1)) w1) @
                 concat (map (entryBlock filter_p) (zip rests ?es))"
      by (auto simp: emits_def w1)
    show ?thesis
    proof (intro exI [of _ "evs # rests"] conjI)
      show "length (evs # rests) = length (entriesWithOptions env (a # toks) (Option w))"
        using False len by simp
      show "list_all (list_all walkEvent) (evs # rests)"
        using evs walk by simp
      show "trace w' = trace w @
          concat (map (entryBlock filter_p)
                    (zip (evs # rests) (entriesWithOptions env (a # toks) (Option w))))"
        using False tr by (simp add: emits_def w1 entryBlock_def)
    qed
  qed
qed


lemma batch_flag_from_parses:
  assumes "batchMakeTags fuel env args w = Return () w'"
  shows "take (length (trace w)) (trace w') = trace w \<and>
     (\<forall>b. CloseTagFile b \<in> set (newEvents w w') \<longrightarrow>
          b = list_ex (parseResult env) (newEvents w w'))"
proof -
  have "closesWith env w False (Return () w')"
    using closes_batchMakeTags [of env w fuel args] assms by simp
  then show ?thesis by (rule closesWith_newEvents)
qed

lemma filter_mode_stdout:
  assumes run: "createTagsFromFileInput (createTagsForEntry fuel env) env (Some f) filter_p w =
      Return r w'"
    and toks: "toks = cArgNewFromLineFile env (case f of Stdin \<Rightarrow> stdin w | Opened s \<Rightarrow> s)"
  shows "stdoutEvents (trace w') =
       stdoutEvents (trace w) @ filterOutput env filter_p toks (Option w) \<and>
     (\<not> filter_p \<longrightarrow> stdoutEvents (trace w') = stdoutEvents (trace w)) \<and>
     (filter_p \<longrightarrow>
        length (filter (\<lambda>e. e = Fflush) (stdoutEvents (trace w'))) =
        length (filter (\<lambda>e. e = Fflush) (stdoutEvents (trace w))) +
        length (filter (\<lambda>a. \<not> cArgIsOption env a) toks)) \<and>
     (filter_p \<and> list_all (\<lambda>a. \<not> cArgIsOption env a) toks \<longrightarrow>
        stdoutEvents (trace w') =
        stdoutEvents (trace w) @
        concat (map (\<lambda>a. (case filterTerminator (Option w) of
                             Some t \<Rightarrow> [Fputs (Text t)] | None \<Rightarrow> []) @ [Fflush]) toks))"
proof -
  have out: "stdoutEvents (trace w') =
       stdoutEvents (trace w) @ filterOutput env filter_p toks (Option w)"
    using createTagsFromFileInput_stdout [OF walks_createTagsForEntry run] toks by simp
  show ?thesis
  proof (cases filter_p)
    case True
    have "filterOutput env True toks (Option w) =
        concat (map (\<lambda>a. (case filterTerminator (Option w) of
                             Some t \<Rightarrow> [Fputs (Text t)] | None \<Rightarrow> []) @ [Fflush]) toks)"
      if "list_all (\<lambda>a. \<not> cArgIsOption env a) toks"
      using filterOutput_no_options [OF that, of True "Option w"] by (simp add: entryOutput_def)
    with out True show ?thesis
      by (simp add: filterOutput_flushes)
  next
    case False
    with out show ?thesis
      by (simp add: filterOutput_not_filter)
  qed
qed

text \<open>
  C4. A batch run that does not end before the tag file is opened is \<open>resolveSources\<close>
  followed by \<open>finishBatch\<close>: it goes through its active sources in order (the
  positional arguments, the list file, the filter input, and the directory \<open>.\<close> when no
  other source is active and recursion is enabled), classifies every entry they resolve
  to, and finishes with the logical or of the results of all these entries, \<open>False\<close>
  when there is no entry: that is the flag \<open>closeTagFile\<close> gets. A loop over entries
  that has the flag \<open>True\<close> returns \<open>True\<close>, whatever the later entries yield. And
  since the result of an entry is the or of the parses below it, a flag passed to
  \<open>closeTagFile\<close> is also the or of the results of all parses of the run.
\<close>

theorem resize_flag_is_disjunction:
  "batchMakeTags fuel env args w =
     (if cArgOff args \<and> fileList (Option w) = None \<and> \<not> filter_opt (Option w) \<and>
         filesRequired env (Option w)
      then Fatal NoFilesSpecified w
      else if cArgOff args \<and> fileList (Option w) = None \<and> \<not> filter_opt (Option w) \<and>
              \<not> recurse (Option w) \<and> \<not> etagsInclude (Option w)
      then Return () w
      else bind (resolveSources fuel env args w) (\<lambda>rs w5. finishBatch (anyOf rs) w5)) \<and>
   (createTagsForArgs_loop entry env args0 True w0 = Return r1 w1 \<longrightarrow> r1) \<and>
   (createTagsFromFileInput_loop entry env filter_p args0 True w0 = Return r2 w2 \<longrightarrow> r2) \<and>
   (batchMakeTags fuel env args w = Return () w' \<longrightarrow>
      take (length (trace w)) (trace w') = trace w \<and>
      (\<forall>b. CloseTagFile b \<in> set (newEvents w w') \<longrightarrow>
           b = list_ex (parseResult env) (newEvents w w')))"
  using batchMakeTags_resolveSources [of fuel env args w]
    createTagsForArgs_loop_keeps_flag [of entry env args0 True w0 r1 w1]
    createTagsFromFileInput_loop_keeps_flag [of entry env filter_p args0 True w0 r2 w2]
    batch_flag_from_parses [of fuel env args w w']
  by blast

theorem resize_flag_is_disjunction_witness:
  "resolveSources (Suc 0) demoEnv [''b.c'']
       (demoWorld\<lparr>Option := demoOptions\<lparr>fileList := Some ''files.txt''\<rparr>\<rparr>) =
     Return [False, False, True]
       (demoWorld\<lparr>Option := demoOptions\<lparr>fileList := Some ''files.txt''\<rparr>, trace :=
          [OpenTagFile, Verbose ReadingCommandLine, EStat ''b.c'', ParseFile ''b.c'',
           Verbose ReadingListFile, EStat ''b.c'', ParseFile ''b.c'',
           EStat ''a.c'', ParseFile ''a.c'']\<rparr>) \<and>
   batchMakeTags (Suc 0) demoEnv [''b.c'']
       (demoWorld\<lparr>Option := demoOptions\<lparr>fileList := Some ''files.txt''\<rparr>\<rparr>) =
     Return ()
       (demoWorld\<lparr>Option := demoOptions\<lparr>fileList := Some ''files.txt''\<rparr>, trace :=
          [OpenTagFile, Verbose ReadingCommandLine, EStat ''b.c'', ParseFile ''b.c'',
           Verbose ReadingListFile, EStat ''b.c'', ParseFile ''b.c'',
           EStat ''a.c'', ParseFile ''a.c'', CloseTagFile True]\<rparr>) \<and>
   resolveSources (Suc 0) demoEnv []
       (demoWorld\<lparr>Option := demoOptions\<lparr>fileList := Some ''-''\<rparr>\<rparr>) =
     Return []
       (demoWorld\<lparr>Option := demoOptions\<lparr>fileList := Some ''-''\<rparr>, trace :=
          [OpenTagFile, Verbose ReadingListFile]\<rparr>) \<and>
   batchMakeTags (Suc 0) demoEnv []
       (demoWorld\<lparr>Option := demoOptions\<lparr>fileList := Some ''-''\<rparr>\<rparr>) =
     Return ()
       (demoWorld\<lparr>Option := demoOptions\<lparr>fileList := Some ''-''\<rparr>, trace :=
          [OpenTagFile, Verbose ReadingListFile, CloseTagFile False]\<rparr>) \<and>
   resolveSources (Suc 0) demoEnv []
       (demoWorld\<lparr>Option := demoOptions\<lparr>filter_opt := True\<rparr>, stdin := ''list''\<rparr>) =
     Return [False, True]
       (demoWorld\<lparr>Option := demoOptions\<lparr>filter_opt := True\<rparr>, stdin := [], trace :=
          [Verbose ReadingFilterInput, EStat ''b.c'', ParseFile ''b.c'', Fflush,
           EStat ''a.c'', ParseFile ''a.c'', Fflush]\<rparr>) \<and>
   batchMakeTags (Suc 0) demoEnv []
       (demoWorld\<lparr>Option := demoOptions\<lparr>filter_opt := True\<rparr>, stdin := ''list''\<rparr>) =
     Return ()
       (demoWorld\<lparr>Option := demoOptions\<lparr>filter_opt := True\<rparr>, stdin := [], trace :=
          [Verbose ReadingFilterInput, EStat ''b.c'', ParseFile ''b.c'', Fflush,
           EStat ''a.c'', ParseFile ''a.c'', Fflush]\<rparr>) \<and>
   resolveSources (Suc (Suc (Suc 0))) demoEnv []
       demoWorld =
     Return [True]
       (demoWorld\<lparr>trace :=
          [OpenTagFile, Verbose (Recursing ''.''), EStat ''b.c'', ParseFile ''b.c'',
           EStat ''d'', Verbose (Recursing ''d''), EStat ''d/a.c'', ParseFile ''d/a.c'']\<rparr>) \<and>
   batchMakeTags (Suc (Suc (Suc 0))) demoEnv []
       demoWorld =
     Return ()
       (demoWorld\<lparr>trace :=
          [OpenTagFile, Verbose (Recursing ''.''), EStat ''b.c'', ParseFile ''b.c'',
           EStat ''d'', Verbose (Recursing ''d''), EStat ''d/a.c'', ParseFile ''d/a.c'', CloseTagFile True]\<rparr>) \<and>
   resolveSources (Suc 0) (demoEnv\<lparr>dirIter := HAVE_FINDFIRST, MANUAL_GLOBBING := True\<rparr>) [''d/*.*'']
       demoWorld =
     Return [True]
       (demoWorld\<lparr>trace :=
          [OpenTagFile, Verbose ReadingCommandLine, EStat ''d/a.c'', ParseFile ''d/a.c'']\<rparr>) \<and>
   batchMakeTags (Suc 0) (demoEnv\<lparr>dirIter := HAVE_FINDFIRST, MANUAL_GLOBBING := True\<rparr>) [''d/*.*'']
       demoWorld =
     Return ()
       (demoWorld\<lparr>trace :=
          [OpenTagFile, Verbose ReadingCommandLine, EStat ''d/a.c'', ParseFile ''d/a.c'', CloseTagFile True]\<rparr>) \<and>
   createTagsForArgs_loop (createTagsForEntry (Suc 0) demoEnv) demoEnv [''b.c''] True demoWorld =
     Return True (demoWorld\<lparr>trace :=
          [EStat ''b.c'', ParseFile ''b.c'']\<rparr>) \<and>
   createTagsFromFileInput_loop (createTagsForEntry (Suc 0) demoEnv) demoEnv False [''b.c''] True demoWorld =
     Return True (demoWorld\<lparr>trace :=
          [EStat ''b.c'', ParseFile ''b.c'']\<rparr>) \<and>
   list_ex (parseResult demoEnv)
       (newEvents (demoWorld\<lparr>Option := demoOptions\<lparr>fileList := Some ''files.txt''\<rparr>\<rparr>)
          (demoWorld\<lparr>Option := demoOptions\<lparr>fileList := Some ''files.txt''\<rparr>, trace :=
          [OpenTagFile, Verbose ReadingCommandLine, EStat ''b.c'', ParseFile ''b.c'',
           Verbose ReadingListFile, EStat ''b.c'', ParseFile ''b.c'',
           EStat ''a.c'', ParseFile ''a.c'', CloseTagFile True]\<rparr>))"
proof -
  have rs1: "resolveSources (Suc 0) demoEnv [''b.c'']
          (demoWorld\<lparr>Option := demoOptions\<lparr>fileList := Some ''files.txt''\<rparr>\<rparr>) =
        Return [False, False, True]
          (demoWorld\<lparr>Option := demoOptions\<lparr>fileList := Some ''files.txt''\<rparr>, trace :=
             [OpenTagFile, Verbose ReadingCommandLine, EStat ''b.c'', ParseFile ''b.c'',
              Verbose ReadingListFile, EStat ''b.c'', ParseFile ''b.c'',
              EStat ''a.c'', ParseFile ''a.c'']\<rparr>)"
    by code_simp
  have run1: "batchMakeTags (Suc 0) demoEnv [''b.c'']
          (demoWorld\<lparr>Option := demoOptions\<lparr>fileList := Some ''files.txt''\<rparr>\<rparr>) =
        Return ()
          (demoWorld\<lparr>Option := demoOptions\<lparr>fileList := Some ''files.txt''\<rparr>, trace :=
             [OpenTagFile, Verbose ReadingCommandLine, EStat ''b.c'', ParseFile ''b.c'',
              Verbose ReadingListFile, EStat ''b.c'', ParseFile ''b.c'',
              EStat ''a.c'', ParseFile ''a.c'', CloseTagFile True]\<rparr>)"
    using resize_flag_is_disjunction [of "Suc 0" "demoEnv" "[''b.c'']"
        "(demoWorld\<lparr>Option := demoOptions\<lparr>fileList := Some ''files.txt''\<rparr>\<rparr>)"] rs1
    by (simp add: cArgOff_def demoWorld_def demoOptions_def demoEnv_def finishBatch_def emit_def
        Let_def)
  have rs2: "resolveSources (Suc 0) demoEnv []
          (demoWorld\<lparr>Option := demoOptions\<lparr>fileList := Some ''-''\<rparr>\<rparr>) =
        Return []
          (demoWorld\<lparr>Option := demoOptions\<lparr>fileList := Some ''-''\<rparr>, trace :=
             [OpenTagFile, Verbose ReadingListFile]\<rparr>)"
    by code_simp
  have run2: "batchMakeTags (Suc 0) demoEnv []
          (demoWorld\<lparr>Option := demoOptions\<lparr>fileList := Some ''-''\<rparr>\<rparr>) =
        Return ()
          (demoWorld\<lparr>Option := demoOptions\<lparr>fileList := Some ''-''\<rparr>, trace :=
             [OpenTagFile, Verbose ReadingListFile, CloseTagFile False]\<rparr>)"
    using resize_flag_is_disjunction [of "Suc 0" "demoEnv" "[]"
        "(demoWorld\<lparr>Option := demoOptions\<lparr>fileList := Some ''-''\<rparr>\<rparr>)"] rs2
    by (simp add: cArgOff_def demoWorld_def demoOptions_def demoEnv_def finishBatch_def emit_def
        Let_def)
  have rs3: "resolveSources (Suc 0) demoEnv []
          (demoWorld\<lparr>Option := demoOptions\<lparr>filter_opt := True\<rparr>, stdin := ''list''\<rparr>) =
        Return [False, True]
          (demoWorld\<lparr>Option := demoOptions\<lparr>filter_opt := True\<rparr>, stdin := [], trace :=
             [Verbose ReadingFilterInput, EStat ''b.c'', ParseFile ''b.c'', Fflush,
              EStat ''a.c'', ParseFile ''a.c'', Fflush]\<rparr>)"
    by code_simp
  have run3: "batchMakeTags (Suc 0) demoEnv []
          (demoWorld\<lparr>Option := demoOptions\<lparr>filter_opt := True\<rparr>, stdin := ''list''\<rparr>) =
        Return ()
          (demoWorld\<lparr>Option := demoOptions\<lparr>filter_opt := True\<rparr>, stdin := [], trace :=
             [Verbose ReadingFilterInput, EStat ''b.c'', ParseFile ''b.c'', Fflush,
              EStat ''a.c'', ParseFile ''a.c'', Fflush]\<rparr>)"
    using resize_flag_is_disjunction [of "Suc 0" "demoEnv" "[]"
        "(demoWorld\<lparr>Option := demoOptions\<lparr>filter_opt := True\<rparr>, stdin := ''list''\<rparr>)"] rs3
    by (simp add: cArgOff_def demoWorld_def demoOptions_def demoEnv_def finishBatch_def emit_def
        Let_def)
  have rs4: "resolveSources (Suc (Suc (Suc 0))) demoEnv []
          demoWorld =
        Return [True]
          (demoWorld\<lparr>trace :=
             [OpenTagFile, Verbose (Recursing ''.''), EStat ''b.c'', ParseFile ''b.c'',
              EStat ''d'', Verbose (Recursing ''d''), EStat ''d/a.c'', ParseFile ''d/a.c'']\<rparr>)"
    by code_simp
  have run4: "batchMakeTags (Suc (Suc (Suc 0))) demoEnv []
          demoWorld =
        Return ()
          (demoWorld\<lparr>trace :=
             [OpenTagFile, Verbose (Recursing ''.''), EStat ''b.c'', ParseFile ''b.c'',
              EStat ''d'', Verbose (Recursing ''d''), EStat ''d/a.c'', ParseFile ''d/a.c'', CloseTagFile True]\<rparr>)"
    using resize_flag_is_disjunction [of "Suc (Suc (Suc 0))" "demoEnv" "[]"
        "demoWorld"] rs4
    by (simp add: cArgOff_def demoWorld_def demoOptions_def demoEnv_def finishBatch_def emit_def
        Let_def)
  have rs5: "resolveSources (Suc 0) (demoEnv\<lparr>dirIter := HAVE_FINDFIRST, MANUAL_GLOBBING := True\<rparr>) [''d/*.*'']
          demoWorld =
        Return [True]
          (demoWorld\<lparr>trace :=
             [OpenTagFile, Verbose ReadingCommandLine, EStat ''d/a.c'', ParseFile ''d/a.c'']\<rparr>)"
    by code_simp
  have run5: "batchMakeTags (Suc 0) (demoEnv\<lparr>dirIter := HAVE_FINDFIRST, MANUAL_GLOBBING := True\<rparr>) [''d/*.*'']
          demoWorld =
        Return ()
          (demoWorld\<lparr>trace :=
             [OpenTagFile, Verbose ReadingCommandLine, EStat ''d/a.c'', ParseFile ''d/a.c'', CloseTagFile True]\<rparr>)"
    using resize_flag_is_disjunction [of "Suc 0" "(demoEnv\<lparr>dirIter := HAVE_FINDFIRST, MANUAL_GLOBBING := True\<rparr>)" "[''d/*.*'']"
        "demoWorld"] rs5
    by (simp add: cArgOff_def demoWorld_def demoOptions_def demoEnv_def finishBatch_def emit_def
        Let_def)
  have args: "createTagsForArgs_loop (createTagsForEntry (Suc 0) demoEnv) demoEnv [''b.c''] True demoWorld =
        Return True (demoWorld\<lparr>trace :=
             [EStat ''b.c'', ParseFile ''b.c'']\<rparr>)"
    by code_simp
  have input: "createTagsFromFileInput_loop (createTagsForEntry (Suc 0) demoEnv) demoEnv False [''b.c''] True demoWorld =
        Return True (demoWorld\<lparr>trace :=
             [EStat ''b.c'', ParseFile ''b.c'']\<rparr>)"
    by code_simp
  have parses: "list_ex (parseResult demoEnv)
      (newEvents (demoWorld\<lparr>Option := demoOptions\<lparr>fileList := Some ''files.txt''\<rparr>\<rparr>)
         (demoWorld\<lparr>Option := demoOptions\<lparr>fileList := Some ''files.txt''\<rparr>, trace :=
            [OpenTagFile, Verbose ReadingCommandLine, EStat ''b.c'', ParseFile ''b.c'',
             Verbose ReadingListFile, EStat ''b.c'', ParseFile ''b.c'',
             EStat ''a.c'', ParseFile ''a.c'', CloseTagFile True]\<rparr>))"
  proof -
    let ?A = "demoWorld\<lparr>Option := demoOptions\<lparr>fileList := Some ''files.txt''\<rparr>\<rparr>"
    let ?B = "demoWorld\<lparr>Option := demoOptions\<lparr>fileList := Some ''files.txt''\<rparr>, trace :=
        [OpenTagFile, Verbose ReadingCommandLine, EStat ''b.c'', ParseFile ''b.c'',
         Verbose ReadingListFile, EStat ''b.c'', ParseFile ''b.c'',
         EStat ''a.c'', ParseFile ''a.c'', CloseTagFile True]\<rparr>"
    let ?C = "demoWorld\<lparr>trace := [EStat ''b.c'', ParseFile ''b.c'']\<rparr>"
    have "\<forall>b. CloseTagFile b \<in> set (newEvents ?A ?B) \<longrightarrow>
        b = list_ex (parseResult demoEnv) (newEvents ?A ?B)"
      using resize_flag_is_disjunction [where fuel = "Suc 0" and env = demoEnv
          and args = "[''b.c'']" and w = ?A and w' = ?B
          and entry = "createTagsForEntry (Suc 0) demoEnv" and ?args0.0 = "[''b.c'']"
          and ?w0.0 = demoWorld and ?r1.0 = True and ?w1.0 = ?C
          and filter_p = False and ?r2.0 = True and ?w2.0 = ?C]
        run1
      by blast
    moreover have "CloseTagFile True \<in> set (newEvents ?A ?B)"
      by (simp add: newEvents_def demoWorld_def)
    ultimately show ?thesis
      by blast
  qed
  show ?thesis
    by (intro conjI rs1 run1 rs2 run2 rs3 run3 rs4 run4 rs5 run5 args input parses)
qed

text \<open>
  C10. \<open>createTagsFromFileInput\<close> on a stream is \<open>resolveTokens\<close> on its tokens: an
  option token is applied, any other token is classified as an entry and only then, in
  filter mode, the terminator (when one is configured at that moment) and a flush are
  written; outside filter mode nothing is written. So the trace of a run that returns is
  the trace before it followed by one block per entry, in order: the entry's \<open>EStat\<close>, the
  rest of its classification (walk events only), then its terminator and flush. On the
  standard output this leaves exactly \<open>filterOutput\<close> of the stream: a flush per entry in
  filter mode, whether or not a terminator is configured, and nothing for a list file.
\<close>

theorem filter_mode_output:
  assumes toks: "toks = cArgNewFromLineFile env (case f of Stdin \<Rightarrow> stdin w | Opened s \<Rightarrow> s)"
  shows "createTagsFromFileInput entry env (Some f) filter_p w =
       bind (resolveTokens entry env False filter_p toks
               (case f of Stdin \<Rightarrow> w\<lparr>stdin := []\<rparr> | Opened s \<Rightarrow> w))
         (\<lambda>rs w'. Return (anyOf rs) w') \<and>
     (createTagsFromFileInput (createTagsForEntry fuel env) env (Some f) filter_p w =
        Return r w' \<longrightarrow>
      (\<exists>rests. length rests = length (entriesWithOptions env toks (Option w)) \<and>
         list_all (list_all walkEvent) rests \<and>
         trace w' =
           trace w @
           concat (map (entryBlock filter_p)
                     (zip rests (entriesWithOptions env toks (Option w))))) \<and>
      stdoutEvents (trace w') =
        stdoutEvents (trace w) @ filterOutput env filter_p toks (Option w) \<and>
      (\<not> filter_p \<longrightarrow> stdoutEvents (trace w') = stdoutEvents (trace w)) \<and>
      (filter_p \<longrightarrow>
         length (filter (\<lambda>e. e = Fflush) (stdoutEvents (trace w'))) =
         length (filter (\<lambda>e. e = Fflush) (stdoutEvents (trace w))) +
         length (filter (\<lambda>a. \<not> cArgIsOption env a) toks)) \<and>
      (filter_p \<and> list_all (\<lambda>a. \<not> cArgIsOption env a) toks \<longrightarrow>
         stdoutEvents (trace w') =
         stdoutEvents (trace w) @
         concat (map (\<lambda>a. (case filterTerminator (Option w) of
                              Some t \<Rightarrow> [Fputs (Text t)] | None \<Rightarrow> []) @ [Fflush]) toks)))"
proof (intro conjI impI)
  let ?w0 = "case f of Stdin \<Rightarrow> w\<lparr>stdin := []\<rparr> | Opened s \<Rightarrow> w"
  have same: "trace ?w0 = trace w \<and> Option ?w0 = Option w"
    by (cases f) simp_all
  show eq: "createTagsFromFileInput entry env (Some f) filter_p w =
       bind (resolveTokens entry env False filter_p toks ?w0) (\<lambda>rs w'. Return (anyOf rs) w')"
    for entry
    using toks by (simp add: createTagsFromFileInput_resolveFileInput resolveFileInput_def)
  assume run: "createTagsFromFileInput (createTagsForEntry fuel env) env (Some f) filter_p w =
      Return r w'"
  then have "bind (resolveTokens (createTagsForEntry fuel env) env False filter_p toks ?w0)
      (\<lambda>rs w'. Return (anyOf rs) w') = Return r w'"
    unfolding eq [of "createTagsForEntry fuel env"] .
  then obtain rs where
    "resolveTokens (createTagsForEntry fuel env) env False filter_p toks ?w0 = Return rs w'"
    by (auto simp: bind_eq_Return)
  from resolveTokens_blocks [OF statsFirst_createTagsForEntry this] same
  show "\<exists>rests. length rests = length (entriesWithOptions env toks (Option w)) \<and>
         list_all (list_all walkEvent) rests \<and>
         trace w' =
           trace w @
           concat (map (entryBlock filter_p)
                     (zip rests (entriesWithOptions env toks (Option w))))"
    by simp
  from filter_mode_stdout [OF run toks]
  show "stdoutEvents (trace w') =
        stdoutEvents (trace w) @ filterOutput env filter_p toks (Option w)"
    by blast
  {
    assume "\<not> filter_p"
    with filter_mode_stdout [OF run toks]
    show "stdoutEvents (trace w') = stdoutEvents (trace w)"
      by blast
  }
  {
    assume "filter_p"
    with filter_mode_stdout [OF run toks]
    show "length (filter (\<lambda>e. e = Fflush) (stdoutEvents (trace w'))) =
         length (filter (\<lambda>e. e = Fflush) (stdoutEvents (trace w))) +
         length (filter (\<lambda>a. \<not> cArgIsOption env a) toks)"
      by blast
  }
  {
    assume "filter_p \<and> list_all (\<lambda>a. \<not> cArgIsOption env a) toks"
    with filter_mode_stdout [OF run toks]
    show "stdoutEvents (trace w') =
         stdoutEvents (trace w) @
         concat (map (\<lambda>a. (case filterTerminator (Option w) of
                              Some t \<Rightarrow> [Fputs (Text t)] | None \<Rightarrow> []) @ [Fflush]) toks)"
      by blast
  }
qed

theorem filter_mode_output_witness:
  "[''b.c'', ''a.c''] = cArgNewFromLineFile demoEnv ''list'' \<and>
   resolveTokens (createTagsForEntry (Suc 0) demoEnv) demoEnv False True [''b.c'', ''a.c'']
       (demoWorld\<lparr>Option := demoOptions\<lparr>filterTerminator := Some ''END''\<rparr>, stdin := []\<rparr>) =
     Return [False, True]
       (demoWorld\<lparr>Option := demoOptions\<lparr>filterTerminator := Some ''END''\<rparr>, stdin := [],
         trace := [EStat ''b.c'', ParseFile ''b.c'', Fputs (Text ''END''), Fflush,
         EStat ''a.c'', ParseFile ''a.c'', Fputs (Text ''END''), Fflush]\<rparr>) \<and>
   createTagsFromFileInput (createTagsForEntry (Suc 0) demoEnv) demoEnv (Some Stdin) True
       (demoWorld\<lparr>Option := demoOptions\<lparr>filterTerminator := Some ''END''\<rparr>, stdin := ''list''\<rparr>) =
     Return True
       (demoWorld\<lparr>Option := demoOptions\<lparr>filterTerminator := Some ''END''\<rparr>, stdin := [],
         trace := [EStat ''b.c'', ParseFile ''b.c'', Fputs (Text ''END''), Fflush,
         EStat ''a.c'', ParseFile ''a.c'', Fputs (Text ''END''), Fflush]\<rparr>) \<and>
   [EStat ''b.c'', ParseFile ''b.c'', Fputs (Text ''END''), Fflush,
         EStat ''a.c'', ParseFile ''a.c'', Fputs (Text ''END''), Fflush] =
     concat (map (entryBlock True)
       (zip [[ParseFile ''b.c''], [ParseFile ''a.c'']]
          (entriesWithOptions demoEnv [''b.c'', ''a.c''] (demoOptions\<lparr>filterTerminator := Some ''END''\<rparr>)))) \<and>
   stdoutEvents (trace (demoWorld\<lparr>Option := demoOptions\<lparr>filterTerminator := Some ''END''\<rparr>, stdin := [],
         trace := [EStat ''b.c'', ParseFile ''b.c'', Fputs (Text ''END''), Fflush,
         EStat ''a.c'', ParseFile ''a.c'', Fputs (Text ''END''), Fflush]\<rparr>)) =
     stdoutEvents (trace (demoWorld\<lparr>Option := demoOptions\<lparr>filterTerminator := Some ''END''\<rparr>, stdin := ''list''\<rparr>)) @
     filterOutput demoEnv True [''b.c'', ''a.c''] (Option (demoWorld\<lparr>Option := demoOptions\<lparr>filterTerminator := Some ''END''\<rparr>, stdin := ''list''\<rparr>)) \<and>
   stdoutEvents [EStat ''b.c'', ParseFile ''b.c'', Fputs (Text ''END''), Fflush,
         EStat ''a.c'', ParseFile ''a.c'', Fputs (Text ''END''), Fflush] =
     [Fputs (Text ''END''), Fflush, Fputs (Text ''END''), Fflush] \<and>
   resolveTokens (createTagsForEntry (Suc 0) demoEnv) demoEnv False False [''b.c'', ''a.c''] demoWorld =
     Return [False, True] (demoWorld\<lparr>trace := [EStat ''b.c'', ParseFile ''b.c'', EStat ''a.c'', ParseFile ''a.c'']\<rparr>) \<and>
   createTagsFromFileInput (createTagsForEntry (Suc 0) demoEnv) demoEnv (Some (Opened ''list'')) False demoWorld =
     Return True (demoWorld\<lparr>trace := [EStat ''b.c'', ParseFile ''b.c'', EStat ''a.c'', ParseFile ''a.c'']\<rparr>) \<and>
   [EStat ''b.c'', ParseFile ''b.c'', EStat ''a.c'', ParseFile ''a.c''] =
     concat (map (entryBlock False)
       (zip [[ParseFile ''b.c''], [ParseFile ''a.c'']]
          (entriesWithOptions demoEnv [''b.c'', ''a.c''] demoOptions))) \<and>
   stdoutEvents (trace (demoWorld\<lparr>trace := [EStat ''b.c'', ParseFile ''b.c'', EStat ''a.c'', ParseFile ''a.c'']\<rparr>)) = stdoutEvents (trace demoWorld) \<and>
   stdoutEvents [EStat ''b.c'', ParseFile ''b.c'', EStat ''a.c'', ParseFile ''a.c''] = []"
proof -
  have toks: "[''b.c'', ''a.c''] =
      cArgNewFromLineFile demoEnv
        (case Stdin of Stdin \<Rightarrow> stdin (demoWorld\<lparr>Option := demoOptions\<lparr>filterTerminator := Some ''END''\<rparr>, stdin := ''list''\<rparr>) | Opened s \<Rightarrow> s)"
    by (simp add: demoEnv_def)
  have toks2: "[''b.c'', ''a.c''] =
      cArgNewFromLineFile demoEnv
        (case Opened ''list'' of Stdin \<Rightarrow> stdin demoWorld | Opened s \<Rightarrow> s)"
    by (simp add: demoEnv_def)
  have toks1: "[''b.c'', ''a.c''] = cArgNewFromLineFile demoEnv ''list''"
    by (simp add: demoEnv_def)
  have res: "resolveTokens (createTagsForEntry (Suc 0) demoEnv) demoEnv False True [''b.c'', ''a.c'']
          (demoWorld\<lparr>Option := demoOptions\<lparr>filterTerminator := Some ''END''\<rparr>, stdin := []\<rparr>) =
        Return [False, True]
          (demoWorld\<lparr>Option := demoOptions\<lparr>filterTerminator := Some ''END''\<rparr>, stdin := [],
            trace := [EStat ''b.c'', ParseFile ''b.c'', Fputs (Text ''END''), Fflush,
            EStat ''a.c'', ParseFile ''a.c'', Fputs (Text ''END''), Fflush]\<rparr>)"
    by code_simp
  have run: "createTagsFromFileInput (createTagsForEntry (Suc 0) demoEnv) demoEnv (Some Stdin) True
          (demoWorld\<lparr>Option := demoOptions\<lparr>filterTerminator := Some ''END''\<rparr>, stdin := ''list''\<rparr>) =
        Return True
          (demoWorld\<lparr>Option := demoOptions\<lparr>filterTerminator := Some ''END''\<rparr>, stdin := [],
            trace := [EStat ''b.c'', ParseFile ''b.c'', Fputs (Text ''END''), Fflush,
            EStat ''a.c'', ParseFile ''a.c'', Fputs (Text ''END''), Fflush]\<rparr>)"
    using filter_mode_output [OF toks, of "createTagsForEntry (Suc 0) demoEnv" True] res
    by simp
  have blocks: "[EStat ''b.c'', ParseFile ''b.c'', Fputs (Text ''END''), Fflush,
            EStat ''a.c'', ParseFile ''a.c'', Fputs (Text ''END''), Fflush] =
        concat (map (entryBlock True)
          (zip [[ParseFile ''b.c''], [ParseFile ''a.c'']]
             (entriesWithOptions demoEnv [''b.c'', ''a.c''] (demoOptions\<lparr>filterTerminator := Some ''END''\<rparr>))))"
    by code_simp
  have out: "stdoutEvents (trace (demoWorld\<lparr>Option := demoOptions\<lparr>filterTerminator := Some ''END''\<rparr>, stdin := [],
            trace := [EStat ''b.c'', ParseFile ''b.c'', Fputs (Text ''END''), Fflush,
            EStat ''a.c'', ParseFile ''a.c'', Fputs (Text ''END''), Fflush]\<rparr>)) =
        stdoutEvents (trace (demoWorld\<lparr>Option := demoOptions\<lparr>filterTerminator := Some ''END''\<rparr>, stdin := ''list''\<rparr>)) @
        filterOutput demoEnv True [''b.c'', ''a.c''] (Option (demoWorld\<lparr>Option := demoOptions\<lparr>filterTerminator := Some ''END''\<rparr>, stdin := ''list''\<rparr>))"
    using filter_mode_output [OF toks, of "createTagsForEntry (Suc 0) demoEnv" True "Suc 0" True
        "demoWorld\<lparr>Option := demoOptions\<lparr>filterTerminator := Some ''END''\<rparr>, stdin := [],
      trace := [EStat ''b.c'', ParseFile ''b.c'', Fputs (Text ''END''), Fflush,
      EStat ''a.c'', ParseFile ''a.c'', Fputs (Text ''END''), Fflush]\<rparr>"] run
    by blast
  have so: "stdoutEvents [EStat ''b.c'', ParseFile ''b.c'', Fputs (Text ''END''), Fflush,
            EStat ''a.c'', ParseFile ''a.c'', Fputs (Text ''END''), Fflush] =
        [Fputs (Text ''END''), Fflush, Fputs (Text ''END''), Fflush]"
    by (simp add: stdoutEvents_def)
  have res2: "resolveTokens (createTagsForEntry (Suc 0) demoEnv) demoEnv False False [''b.c'', ''a.c''] demoWorld =
        Return [False, True] (demoWorld\<lparr>trace := [EStat ''b.c'', ParseFile ''b.c'', EStat ''a.c'', ParseFile ''a.c'']\<rparr>)"
    by code_simp
  have run2: "createTagsFromFileInput (createTagsForEntry (Suc 0) demoEnv) demoEnv (Some (Opened ''list'')) False demoWorld =
        Return True (demoWorld\<lparr>trace := [EStat ''b.c'', ParseFile ''b.c'', EStat ''a.c'', ParseFile ''a.c'']\<rparr>)"
    using filter_mode_output [OF toks2, of "createTagsForEntry (Suc 0) demoEnv" False] res2
    by simp
  have blocks2: "[EStat ''b.c'', ParseFile ''b.c'', EStat ''a.c'', ParseFile ''a.c''] =
        concat (map (entryBlock False)
          (zip [[ParseFile ''b.c''], [ParseFile ''a.c'']]
             (entriesWithOptions demoEnv [''b.c'', ''a.c''] demoOptions)))"
    by code_simp
  have out2: "stdoutEvents (trace (demoWorld\<lparr>trace := [EStat ''b.c'', ParseFile ''b.c'', EStat ''a.c'', ParseFile ''a.c'']\<rparr>)) = stdoutEvents (trace demoWorld)"
    using filter_mode_output [OF toks2, of "createTagsForEntry (Suc 0) demoEnv" False "Suc 0" True
        "demoWorld\<lparr>trace := [EStat ''b.c'', ParseFile ''b.c'', EStat ''a.c'', ParseFile ''a.c'']\<rparr>"] run2
    by blast
  have so2: "stdoutEvents [EStat ''b.c'', ParseFile ''b.c'', EStat ''a.c'', ParseFile ''a.c''] = []"
    by (simp add: stdoutEvents_def)
  show ?thesis
    by (intro conjI toks1 res run blocks out so res2 run2 blocks2 out2 so2)
qed

end
